theory Spec2Isabelle
  imports Complex_Main "HOL-Library.Multiset"
begin

section \<open>The CSV loader of \<open>src/utils/load_data.py\<close>\<close>

text \<open>
  The program is one Python class, \<open>DataLoader\<close>. Its methods are embedded as HOL
  functions over a record of the object's fields. The libraries the class calls (SQLAlchemy,
  pandas, the thread pool, \<open>time.sleep\<close>, \<open>os.path\<close>) are not part of the repository:
  what the database and the file system answer is a parameter of the model (an
  \<open>attempt_env\<close> for every attempt), and the pure library functions are written out
  after their documented behaviour.
\<close>

subsection \<open>Exceptions\<close>

text \<open>
  A Python exception is its class and the text \<open>str(e)\<close>. Only the distinction the
  handlers of \<open>load_csv_to_postgres\<close> make is kept: \<open>pandas.errors.EmptyDataError\<close>
  against every other subclass of \<open>Exception\<close>. \<open>ParserError\<close> is the class pandas
  raises when the contents of a file cannot be tokenised.
\<close>

datatype exn_class = EmptyDataError | ParserError | ValueError | OverflowError | OtherException

datatype exn = Exn exn_class string

fun exn_class_of :: "exn \<Rightarrow> exn_class" where
  "exn_class_of (Exn c m) = c"

fun str :: "exn \<Rightarrow> string" where
  "str (Exn c m) = m"

definition is_EmptyDataError :: "exn \<Rightarrow> bool" where
  "is_EmptyDataError ex = (exn_class_of ex = EmptyDataError)"

subsection \<open>Data\<close>

text \<open>
  A \<open>DataFrame\<close> read with \<open>dtype=str\<close>: the column labels and the rows, every cell a
  string or missing (\<open>None\<close> for NaN).
\<close>

record dataframe =
  columns :: "string list"
  rows :: "string option list list"

text \<open>A Python \<open>float\<close>: a finite value, an infinity or not a number.\<close>

datatype pyfloat = Finite real | PosInf | NegInf | NaN

text \<open>The fields of a \<open>DataLoader\<close> object, as \<open>__init__\<close> sets them.\<close>

record DataLoader =
  db_host :: "string option"
  db_user :: "string option"
  db_password :: "string option"
  db_name :: "string option"
  csv_directory :: string
  files_to_load :: "string list"
  if_exists :: string
  max_workers :: int
  max_retries :: int
  retry_delay :: pyfloat
  successful_files :: "string list"
  failed_files :: "(string \<times> string) list"

text \<open>\<open>__init__\<close>: the four connection parameters come from the process environment.\<close>

definition init :: "string option \<Rightarrow> string option \<Rightarrow> string option \<Rightarrow> string option \<Rightarrow>
    string \<Rightarrow> string list \<Rightarrow> string \<Rightarrow> int \<Rightarrow> int \<Rightarrow> pyfloat \<Rightarrow> DataLoader" where
  "init host user password name directory files policy workers retries delay =
     \<lparr>db_host = host, db_user = user, db_password = password, db_name = name,
      csv_directory = directory, files_to_load = files, if_exists = policy,
      max_workers = workers, max_retries = retries, retry_delay = delay,
      successful_files = [], failed_files = []\<rparr>"

text \<open>The result triple \<open>(file_path, success, error_message)\<close> of one load.\<close>

type_synonym outcome = "string \<times> bool \<times> string"

text \<open>
  What the outside world answers during one attempt: \<open>create_engine\<close> on the connection
  string, entering \<open>engine.begin()\<close>, \<open>pd.read_csv\<close> on the path, \<open>df.to_sql\<close>
  together with the commit on leaving the transaction scope, and \<open>time.sleep\<close> on the
  delay, which the handler calls before a retry. \<open>None\<close> means the call returns
  normally. Nothing is assumed about when \<open>time.sleep\<close> raises. Leaving the scope
  through the validation \<open>return\<close> commits a transaction in which nothing was executed,
  and is taken not to raise.
\<close>

record attempt_env =
  create_engine :: "string \<Rightarrow> exn option"
  engine_begin :: "exn option"
  read_csv :: "string \<Rightarrow> exn + dataframe"
  to_sql :: "dataframe \<Rightarrow> string \<Rightarrow> string \<Rightarrow> exn option"
  time_sleep :: "pyfloat \<Rightarrow> exn option"

text \<open>The effects of a load that the properties speak about, in the order they happen.\<close>

datatype event =
    AttemptBegun int
  | CredentialsError
  | EngineCreated string
  | ReadCsv string
  | TableWritten string string
  | Slept pyfloat
  | EngineDisposed

datatype level = ERROR | WARNING

subsection \<open>\<open>_create_db_engine\<close>\<close>

text \<open>Python truthiness of an \<open>Optional[str]\<close>: \<open>None\<close> and the empty string are false.\<close>

fun truthy :: "string option \<Rightarrow> bool" where
  "truthy None = False"
| "truthy (Some s) = (s \<noteq> [])"

definition credentials_message :: string where
  "credentials_message = ''Database credentials are not fully set in environment variables.''"

definition db_string :: "DataLoader \<Rightarrow> string" where
  "db_string self =
     ''postgresql://'' @ the (db_user self) @ '':'' @ the (db_password self) @ ''@''
       @ the (db_host self) @ ''/'' @ the (db_name self)"

definition create_db_engine :: "DataLoader \<Rightarrow> attempt_env \<Rightarrow> (exn + unit) \<times> event list" where
  "create_db_engine self e =
     (if \<not> list_all truthy [db_host self, db_user self, db_password self, db_name self]
      then (Inl (Exn ValueError credentials_message), [CredentialsError])
      else (case create_engine e (db_string self) of
              Some ex \<Rightarrow> (Inl ex, [])
            | None \<Rightarrow> (Inr (), [EngineCreated (db_string self)])))"

subsection \<open>\<open>validate_csv\<close>\<close>

definition quoted :: "string \<Rightarrow> string" where
  "quoted s = [CHR 0x27] @ s @ [CHR 0x27]"

definition df_empty :: "dataframe \<Rightarrow> bool" where
  "df_empty df = (rows df = [] \<or> columns df = [])"

definition has_empty_row :: "dataframe \<Rightarrow> bool" where
  "has_empty_row df = list_ex (list_all (\<lambda>cell. cell = None)) (rows df)"

definition has_duplicated_columns :: "dataframe \<Rightarrow> bool" where
  "has_duplicated_columns df = (\<not> distinct (columns df))"

text \<open>The result and the lines the method logs.\<close>

definition validate_csv :: "dataframe \<Rightarrow> string \<Rightarrow> bool \<times> (level \<times> string) list" where
  "validate_csv df file_path =
     (if df_empty df then (False, [(ERROR, ''CSV file '' @ quoted file_path @ '' is empty.'')])
      else
        (let warned =
               (if has_empty_row df
                then [(WARNING, ''CSV file '' @ quoted file_path @ '' contains completely empty rows.'')]
                else [])
         in if has_duplicated_columns df
            then (False, warned @ [(ERROR, ''CSV file '' @ quoted file_path @ '' contains duplicate columns.'')])
            else if length (columns df) = 0
            then (False, warned @ [(ERROR, ''CSV file '' @ quoted file_path @ '' has no columns.'')])
            else (True, warned)))"

subsection \<open>\<open>load_csv_to_postgres\<close>\<close>

text \<open>
  The body of the \<open>try\<close> of one attempt: the value it returns or the exception it raises,
  and its effects.
\<close>

definition attempt_body ::
    "DataLoader \<Rightarrow> attempt_env \<Rightarrow> string \<Rightarrow> string \<Rightarrow> (exn + outcome) \<times> event list" where
  "attempt_body self e file_path table_name =
     (case create_db_engine self e of
        (Inl ex, evs) \<Rightarrow> (Inl ex, evs)
      | (Inr u, evs) \<Rightarrow>
          (case engine_begin e of
             Some ex \<Rightarrow> (Inl ex, evs)
           | None \<Rightarrow>
               (case read_csv e file_path of
                  Inl ex \<Rightarrow> (Inl ex, evs @ [ReadCsv file_path])
                | Inr df \<Rightarrow>
                    if \<not> fst (validate_csv df file_path)
                    then (Inr (file_path, False, ''Validation failed''), evs @ [ReadCsv file_path])
                    else (case to_sql e df table_name (if_exists self) of
                            Some ex \<Rightarrow> (Inl ex, evs @ [ReadCsv file_path])
                          | None \<Rightarrow>
                              (Inr (file_path, True, []),
                               evs @ [ReadCsv file_path, TableWritten table_name (if_exists self)])))))"

text \<open>The \<open>finally\<close> clause: the engine is disposed of when one was created.\<close>

definition dispose :: "event list \<Rightarrow> event list" where
  "dispose evs = (if list_ex (\<lambda>ev. case ev of EngineCreated u \<Rightarrow> True | _ \<Rightarrow> False) evs
                  then [EngineDisposed] else [])"

text \<open>
  The \<open>for\<close> loop over the attempt numbers still to run, with the current \<open>last_error\<close>.
  The result is \<open>Inl\<close> when an exception leaves the method: the handler of a retryable
  failure calls \<open>time.sleep\<close>, and what that raises is caught by nothing.
\<close>

fun attempts :: "DataLoader \<Rightarrow> (int \<Rightarrow> attempt_env) \<Rightarrow> string \<Rightarrow> string \<Rightarrow> int list \<Rightarrow> string
    \<Rightarrow> (exn + outcome) \<times> event list" where
  "attempts self env file_path table_name [] last_error =
     (Inr (file_path, False, last_error), [])"
| "attempts self env file_path table_name (attempt # rest) last_error =
     (case attempt_body self (env attempt) file_path table_name of
        (Inr out, evs) \<Rightarrow> (Inr out, AttemptBegun attempt # evs @ dispose evs)
      | (Inl ex, evs) \<Rightarrow>
          if is_EmptyDataError ex
          then (Inr (file_path, False, ''Empty or malformed CSV''),
                AttemptBegun attempt # evs @ dispose evs)
          else if attempt < max_retries self
          then (case time_sleep (env attempt) (retry_delay self) of
                  Some ex' \<Rightarrow> (Inl ex', AttemptBegun attempt # evs @ dispose evs)
                | None \<Rightarrow>
                    (case attempts self env file_path table_name rest (str ex) of
                       (r, tr) \<Rightarrow>
                         (r, AttemptBegun attempt # evs @ [Slept (retry_delay self)] @ dispose evs @ tr)))
          else (case attempts self env file_path table_name rest (str ex) of
                  (r, tr) \<Rightarrow> (r, AttemptBegun attempt # evs @ dispose evs @ tr)))"

definition load_csv_to_postgres ::
    "DataLoader \<Rightarrow> (int \<Rightarrow> attempt_env) \<Rightarrow> string \<Rightarrow> string \<Rightarrow> (exn + outcome) \<times> event list" where
  "load_csv_to_postgres self env file_path table_name =
     attempts self env file_path table_name [1..max_retries self] []"

text \<open>Readings of a trace.\<close>

definition attempts_made :: "event list \<Rightarrow> nat" where
  "attempts_made tr = length (filter (\<lambda>ev. case ev of AttemptBegun a \<Rightarrow> True | _ \<Rightarrow> False) tr)"

definition sleeps :: "event list \<Rightarrow> pyfloat list" where
  "sleeps tr = concat (map (\<lambda>ev. case ev of Slept d \<Rightarrow> [d] | _ \<Rightarrow> []) tr)"

definition credentials_errors :: "event list \<Rightarrow> nat" where
  "credentials_errors tr = length (filter (\<lambda>ev. ev = CredentialsError) tr)"

definition files_read :: "event list \<Rightarrow> string list" where
  "files_read tr = concat (map (\<lambda>ev. case ev of ReadCsv p \<Rightarrow> [p] | _ \<Rightarrow> []) tr)"

text \<open>The exception, if any, that the body of an attempt raises.\<close>

definition raised :: "DataLoader \<Rightarrow> attempt_env \<Rightarrow> string \<Rightarrow> string \<Rightarrow> exn option" where
  "raised self e file_path table_name =
     (case fst (attempt_body self e file_path table_name) of Inl ex \<Rightarrow> Some ex | Inr out \<Rightarrow> None)"

text \<open>
  Every sleep the loop of a load can ask for returns: the sleep of the configured delay
  after each attempt but the last.
\<close>

definition sleeps_return :: "DataLoader \<Rightarrow> (int \<Rightarrow> attempt_env) \<Rightarrow> bool" where
  "sleeps_return self env =
     list_all (\<lambda>a. time_sleep (env a) (retry_delay self) = None) [1..max_retries self - 1]"

text \<open>An attempt fails retryably when its body raises anything but \<open>EmptyDataError\<close>.\<close>

definition retryable :: "DataLoader \<Rightarrow> attempt_env \<Rightarrow> string \<Rightarrow> string \<Rightarrow> bool" where
  "retryable self e file_path table_name =
     (case raised self e file_path table_name of Some ex \<Rightarrow> \<not> is_EmptyDataError ex | None \<Rightarrow> False)"

subsection \<open>\<open>os.path.join\<close> and \<open>os.path.splitext\<close>\<close>

text \<open>
  The POSIX versions of the two standard-library functions, after their implementation
  in \<open>posixpath\<close> and \<open>genericpath\<close>. \<open>rfind\<close> is \<open>str.rfind\<close> of one character: the
  index of its last occurrence, or \<open>-1\<close>.
\<close>

definition rfind :: "string \<Rightarrow> char \<Rightarrow> int" where
  "rfind p c = (if c \<in> set p then int (length p) - 1 - int (length (takeWhile (\<lambda>x. x \<noteq> c) (rev p)))
                else - 1)"

definition join :: "string \<Rightarrow> string \<Rightarrow> string" where
  "join a b = (if take 1 b = ''/'' \<or> a = [] then b
               else if last a = CHR ''/'' then a @ b
               else a @ ''/'' @ b)"

text \<open>
  The loop of \<open>_splitext\<close> that skips the leading dots of the last component returns
  the split as soon as it meets a character other than a dot in the slice
  \<open>p[filenameIndex:dotIndex]\<close>, and falls through to \<open>(p, '')\<close> otherwise.
\<close>

definition not_all_dots :: "string \<Rightarrow> nat \<Rightarrow> nat \<Rightarrow> bool" where
  "not_all_dots p filenameIndex dotIndex =
     list_ex (\<lambda>c. c \<noteq> CHR ''.'') (take (dotIndex - filenameIndex) (drop filenameIndex p))"

definition splitext :: "string \<Rightarrow> string \<times> string" where
  "splitext p =
     (let sepIndex = rfind p (CHR ''/'');
          dotIndex = rfind p (CHR ''.'')
      in if dotIndex > sepIndex \<and> not_all_dots p (nat (sepIndex + 1)) (nat dotIndex)
         then (take (nat dotIndex) p, drop (nat dotIndex) p)
         else (p, []))"

text \<open>\<open>posixpath.basename\<close>: what follows the last slash.\<close>

definition basename :: "string \<Rightarrow> string" where
  "basename p = drop (nat (rfind p (CHR ''/'') + 1)) p"

subsection \<open>\<open>run\<close>\<close>

text \<open>The arguments of the load submitted for one file name.\<close>

definition task_of :: "DataLoader \<Rightarrow> string \<Rightarrow> string \<times> string" where
  "task_of self file_name = (join (csv_directory self) file_name, fst (splitext file_name))"

definition tasks :: "DataLoader \<Rightarrow> (string \<times> string) list" where
  "tasks self = map (task_of self) (files_to_load self)"

text \<open>
  The futures, in submission order. Every load runs on the object's configuration with
  the environment of its own position; the worker threads write no field of the object.
\<close>

definition futures :: "DataLoader \<Rightarrow> (nat \<Rightarrow> int \<Rightarrow> attempt_env) \<Rightarrow> (exn + outcome) list" where
  "futures self env =
     map (\<lambda>(i, (file_path, table_name)). fst (load_csv_to_postgres self (env i) file_path table_name))
         (enumerate 0 (tasks self))"

text \<open>
  The loop over \<open>as_completed\<close>, run by the calling thread: \<open>future.result()\<close> returns
  the triple or raises again what the load raised.
\<close>

fun collect :: "DataLoader \<Rightarrow> (exn + outcome) list \<Rightarrow> exn + DataLoader" where
  "collect self [] = Inr self"
| "collect self (Inl ex # rest) = Inl ex"
| "collect self (Inr (file_path, success, error) # rest) =
     collect (if success
              then self\<lparr>successful_files := successful_files self @ [file_path]\<rparr>
              else self\<lparr>failed_files := failed_files self @ [(file_path, error)]\<rparr>) rest"

text \<open>
  \<open>run\<close>. \<open>order\<close> is the order in which the futures complete, a list of positions in
  the submission order; \<open>as_completed\<close> yields every future once, so \<open>order\<close> is a
  permutation of \<open>[0..<length (files_to_load self)]\<close>. \<open>ThreadPoolExecutor\<close> raises
  \<open>ValueError\<close> unless \<open>max_workers\<close> is positive. The summary report only logs.
\<close>

definition run :: "DataLoader \<Rightarrow> (nat \<Rightarrow> int \<Rightarrow> attempt_env) \<Rightarrow> nat list \<Rightarrow> exn + DataLoader" where
  "run self env order =
     (if max_workers self \<le> 0 then Inl (Exn ValueError ''max_workers must be greater than 0'')
      else collect self (map (\<lambda>i. futures self env ! i) order))"

definition completion_order :: "DataLoader \<Rightarrow> nat list \<Rightarrow> bool" where
  "completion_order self order = (mset order = mset [0..<length (files_to_load self)])"

text \<open>The two lists that a sequence of outcomes adds to the report.\<close>

definition succeeded_paths :: "outcome list \<Rightarrow> string list" where
  "succeeded_paths outs = map fst (filter (\<lambda>out. fst (snd out)) outs)"

definition failed_pairs :: "outcome list \<Rightarrow> (string \<times> string) list" where
  "failed_pairs outs = map (\<lambda>out. (fst out, snd (snd out))) (filter (\<lambda>out. \<not> fst (snd out)) outs)"

text \<open>The outcomes of a run in completion order, when no load raises.\<close>

definition outcomes :: "DataLoader \<Rightarrow> (nat \<Rightarrow> int \<Rightarrow> attempt_env) \<Rightarrow> nat list \<Rightarrow> outcome list" where
  "outcomes self env order = map (\<lambda>i. projr (futures self env ! i)) order"

text \<open>The part of a name before its last dot, the informal reading of stripping an extension.\<close>

definition up_to_last_dot :: "string \<Rightarrow> string" where
  "up_to_last_dot file_name = take (nat (rfind file_name (CHR ''.''))) file_name"

subsection \<open>Sample objects and environments\<close>

text \<open>
  A loader configured as \<open>main\<close> configures it (three retries, two seconds of delay, four
  workers, policy \<open>replace\<close>), over a given list of files and with a given host.
\<close>

definition sample_loader :: "string option \<Rightarrow> string list \<Rightarrow> DataLoader" where
  "sample_loader host files =
     init host (Some ''etl'') (Some ''secret'') (Some ''olist'') ''data/data-1'' files ''replace'' 4 3
       (Finite 2)"

definition sample_frame :: dataframe where
  "sample_frame = \<lparr>columns = [''id'', ''city''], rows = [[Some ''1'', Some ''Pune'']]\<rparr>"

definition header_only :: dataframe where
  "header_only = \<lparr>columns = [''id'', ''city''], rows = []\<rparr>"

text \<open>
  \<open>time.sleep\<close> as CPython answers where timestamps are 64-bit counts of nanoseconds:
  \<open>ValueError\<close> for not a number, \<open>OverflowError\<close> for a length that does not fit the
  timestamp, \<open>ValueError\<close> for a negative length.
\<close>

fun cpython_sleep :: "pyfloat \<Rightarrow> exn option" where
  "cpython_sleep NaN = Some (Exn ValueError ''Invalid value NaN (not a number)'')"
| "cpython_sleep PosInf = Some (Exn OverflowError ''timestamp too large to convert to C _PyTime_t'')"
| "cpython_sleep NegInf = Some (Exn OverflowError ''timestamp too large to convert to C _PyTime_t'')"
| "cpython_sleep (Finite secs) =
     (if \<bar>secs\<bar> * 1000000000 \<ge> 9223372036854775808
      then Some (Exn OverflowError ''timestamp too large to convert to C _PyTime_t'')
      else if secs < 0 then Some (Exn ValueError ''sleep length must be non-negative'')
      else None)"

text \<open>A reachable database, and a file system that answers \<open>rd\<close> to the read.\<close>

definition answering :: "exn + dataframe \<Rightarrow> attempt_env" where
  "answering rd =
     \<lparr>create_engine = (\<lambda>url. None), engine_begin = None,
      read_csv = (\<lambda>file_path. rd), to_sql = (\<lambda>df table_name policy. None),
      time_sleep = cpython_sleep\<rparr>"

text \<open>A database that refuses the connection.\<close>

definition unreachable :: attempt_env where
  "unreachable =
     \<lparr>create_engine = (\<lambda>url. None), engine_begin = Some (Exn OtherException ''connection refused''),
      read_csv = (\<lambda>file_path. Inr sample_frame), to_sql = (\<lambda>df table_name policy. None),
      time_sleep = cpython_sleep\<rparr>"

text \<open>
  Three files of which the second has no data, and three files that all fail: the database
  refuses the first, the second has no data, the third has a header and no rows. A file
  that can only be read once the database has refused a first connection.
\<close>

definition three_files_env :: "nat \<Rightarrow> int \<Rightarrow> attempt_env" where
  "three_files_env i a =
     (if i = 1 then answering (Inl (Exn EmptyDataError ''No columns to parse from file''))
      else answering (Inr sample_frame))"

definition after_refusal :: "exn + dataframe \<Rightarrow> int \<Rightarrow> attempt_env" where
  "after_refusal rd a = (if a = 1 then unreachable else answering rd)"

definition all_failing_env :: "nat \<Rightarrow> int \<Rightarrow> attempt_env" where
  "all_failing_env i a =
     (if i = 0 then unreachable
      else if i = 1 then answering (Inl (Exn EmptyDataError ''No columns to parse from file''))
      else answering (Inr header_only))"

section \<open>Traces, attempts and the retry loop\<close>

lemma attempts_made_simps [simp]:
  "attempts_made [] = 0"
  "attempts_made (xs @ ys) = attempts_made xs + attempts_made ys"
  "attempts_made (ev # xs) = (case ev of AttemptBegun a \<Rightarrow> 1 | _ \<Rightarrow> 0) + attempts_made xs"
  "attempts_made (dispose evs) = 0"
  by (simp_all add: attempts_made_def dispose_def split: event.splits)

lemma sleeps_simps [simp]:
  "sleeps [] = []"
  "sleeps (xs @ ys) = sleeps xs @ sleeps ys"
  "sleeps (ev # xs) = (case ev of Slept d \<Rightarrow> [d] | _ \<Rightarrow> []) @ sleeps xs"
  "sleeps (dispose evs) = []"
  by (simp_all add: sleeps_def dispose_def)

lemma credentials_errors_simps [simp]:
  "credentials_errors [] = 0"
  "credentials_errors (xs @ ys) = credentials_errors xs + credentials_errors ys"
  "credentials_errors (ev # xs) = (if ev = CredentialsError then 1 else 0) + credentials_errors xs"
  "credentials_errors (dispose evs) = 0"
  by (simp_all add: credentials_errors_def dispose_def)

lemma files_read_simps [simp]:
  "files_read [] = []"
  "files_read (xs @ ys) = files_read xs @ files_read ys"
  "files_read (ev # xs) = (case ev of ReadCsv p \<Rightarrow> [p] | _ \<Rightarrow> []) @ files_read xs"
  "files_read (dispose evs) = []"
  by (simp_all add: files_read_def dispose_def)

lemma attempt_body_events:
  "attempts_made (snd (attempt_body self e fp tn)) = 0"
  "sleeps (snd (attempt_body self e fp tn)) = []"
  by (auto simp: attempt_body_def create_db_engine_def attempts_made_def sleeps_def
      split: option.splits sum.splits)

lemma attempt_body_path:
  "fst (attempt_body self e fp tn) = Inr (p, ok, msg) \<Longrightarrow> p = fp \<and> (ok \<longleftrightarrow> msg = [])"
  by (auto simp: attempt_body_def create_db_engine_def split: option.splits sum.splits if_splits)

lemma raised_Some:
  "raised self e fp tn = Some ex \<longleftrightarrow> fst (attempt_body self e fp tn) = Inl ex"
  by (simp add: raised_def split: sum.splits)

lemma attempts_retry:
  assumes "raised self (env a) fp tn = Some ex" "\<not> is_EmptyDataError ex"
    and "a < max_retries self \<longrightarrow> time_sleep (env a) (retry_delay self) = None"
  shows "fst (attempts self env fp tn (a # rest) le) = fst (attempts self env fp tn rest (str ex))"
    and "attempts_made (snd (attempts self env fp tn (a # rest) le))
           = Suc (attempts_made (snd (attempts self env fp tn rest (str ex))))"
    and "sleeps (snd (attempts self env fp tn (a # rest) le))
           = (if a < max_retries self then [retry_delay self] else [])
               @ sleeps (snd (attempts self env fp tn rest (str ex)))"
  using assms attempt_body_events [of self "env a" fp tn]
  by (auto simp: raised_Some split: prod.splits sum.splits)

text \<open>An attempt whose body returns ends the loop with what it returned.\<close>

lemma attempts_returned:
  assumes "fst (attempt_body self (env a) fp tn) = Inr out"
  shows "fst (attempts self env fp tn (a # rest) le) = Inr out"
    and "attempts_made (snd (attempts self env fp tn (a # rest) le)) = 1"
    and "sleeps (snd (attempts self env fp tn (a # rest) le)) = []"
  using assms attempt_body_events [of self "env a" fp tn]
  by (auto split: prod.splits sum.splits)

text \<open>
  A run of attempts that all fail retryably, none of them the last one allowed, each followed
  by a sleep that returns: each adds one attempt and one sleep, and the loop goes on with
  the attempts that remain.
\<close>

lemma attempts_retry_prefix:
  assumes "\<forall>a\<in>set as. retryable self (env a) fp tn \<and> a < max_retries self
             \<and> time_sleep (env a) (retry_delay self) = None"
  shows "\<exists>le'. fst (attempts self env fp tn (as @ rest) le) = fst (attempts self env fp tn rest le')
          \<and> attempts_made (snd (attempts self env fp tn (as @ rest) le))
              = length as + attempts_made (snd (attempts self env fp tn rest le'))
          \<and> sleeps (snd (attempts self env fp tn (as @ rest) le))
              = replicate (length as) (retry_delay self) @ sleeps (snd (attempts self env fp tn rest le'))"
  using assms
proof (induction as arbitrary: le)
  case Nil
  show ?case by (rule exI [of _ le]) simp
next
  case (Cons a as)
  from Cons.prems obtain ex where ex: "raised self (env a) fp tn = Some ex" "\<not> is_EmptyDataError ex"
    by (auto simp: retryable_def split: option.splits)
  from Cons.prems have lt: "a < max_retries self"
    and sl: "a < max_retries self \<longrightarrow> time_sleep (env a) (retry_delay self) = None"
    by simp_all
  from Cons.prems have "\<forall>a\<in>set as. retryable self (env a) fp tn \<and> a < max_retries self
      \<and> time_sleep (env a) (retry_delay self) = None"
    by simp
  from Cons.IH [OF this, of "str ex"] obtain le' where
    le': "fst (attempts self env fp tn (as @ rest) (str ex)) = fst (attempts self env fp tn rest le')"
      "attempts_made (snd (attempts self env fp tn (as @ rest) (str ex)))
              = length as + attempts_made (snd (attempts self env fp tn rest le'))"
      "sleeps (snd (attempts self env fp tn (as @ rest) (str ex)))
              = replicate (length as) (retry_delay self) @ sleeps (snd (attempts self env fp tn rest le'))"
    by blast
  show ?case
    using attempts_retry [where env = env and a = a, OF ex sl, of "as @ rest" le] le' lt
    by (intro exI [of _ le']) simp
qed

lemma attempts_last_retry:
  assumes "raised self (env a) fp tn = Some ex" "\<not> is_EmptyDataError ex" "\<not> a < max_retries self"
  shows "fst (attempts self env fp tn [a] le) = Inr (fp, False, str ex)"
    and "attempts_made (snd (attempts self env fp tn [a] le)) = 1"
    and "sleeps (snd (attempts self env fp tn [a] le)) = []"
  using assms attempt_body_events [of self "env a" fp tn]
  by (auto simp: raised_Some split: prod.splits sum.splits)

lemma attempts_empty_data:
  assumes "raised self (env a) fp tn = Some ex" "is_EmptyDataError ex"
  shows "fst (attempts self env fp tn (a # rest) le) = Inr (fp, False, ''Empty or malformed CSV'')"
    and "attempts_made (snd (attempts self env fp tn (a # rest) le)) = 1"
    and "sleeps (snd (attempts self env fp tn (a # rest) le)) = []"
  using assms attempt_body_events [of self "env a" fp tn]
  by (auto simp: raised_Some split: prod.splits sum.splits)

lemma attempts_exhausted:
  assumes "1 \<le> max_retries self" and "sleeps_return self env"
    and "\<forall>a\<in>{1..max_retries self}. retryable self (env a) file_path table_name"
  shows "\<exists>ex. raised self (env (max_retries self)) file_path table_name = Some ex
           \<and> fst (load_csv_to_postgres self env file_path table_name) = Inr (file_path, False, str ex)
           \<and> attempts_made (snd (load_csv_to_postgres self env file_path table_name)) = nat (max_retries self)
           \<and> sleeps (snd (load_csv_to_postgres self env file_path table_name))
                = replicate (nat (max_retries self - 1)) (retry_delay self)"
proof -
  let ?m = "max_retries self"
  from assms(1,3) have "retryable self (env ?m) file_path table_name" by simp
  then obtain ex where ex: "raised self (env ?m) file_path table_name = Some ex"
      "\<not> is_EmptyDataError ex"
    by (auto simp: retryable_def split: option.splits)
  have split: "[1..?m] = [1..?m - 1] @ [?m]"
    using assms(1) by (rule upto_rec2)
  have pre: "\<forall>a\<in>set [1..?m - 1]. retryable self (env a) file_path table_name \<and> a < ?m
      \<and> time_sleep (env a) (retry_delay self) = None"
    using assms(2,3) by (auto simp: sleeps_return_def list_all_iff)
  from attempts_retry_prefix [OF pre, of "[?m]" "[]"] obtain le' where
    le': "fst (attempts self env file_path table_name ([1..?m - 1] @ [?m]) [])
            = fst (attempts self env file_path table_name [?m] le')"
      "attempts_made (snd (attempts self env file_path table_name ([1..?m - 1] @ [?m]) []))
            = length [1..?m - 1] + attempts_made (snd (attempts self env file_path table_name [?m] le'))"
      "sleeps (snd (attempts self env file_path table_name ([1..?m - 1] @ [?m]) []))
            = replicate (length [1..?m - 1]) (retry_delay self)
                @ sleeps (snd (attempts self env file_path table_name [?m] le'))"
    by blast
  have len: "length [1..?m - 1] = nat (?m - 1)" by simp
  have "nat (?m - 1) + 1 = nat ?m" using assms(1) by simp
  then show ?thesis
    using ex le' attempts_last_retry [where env = env and a = "?m", OF ex, of le']
    unfolding load_csv_to_postgres_def split [symmetric] len
    by (intro exI [of _ ex]) simp
qed

text \<open>When the sleeps return, the loop returns a triple for the path it was given.\<close>

lemma attempts_return:
  assumes "\<forall>a\<in>set as. a < max_retries self \<longrightarrow> time_sleep (env a) (retry_delay self) = None"
  shows "\<exists>ok msg. fst (attempts self env fp tn as le) = Inr (fp, ok, msg)"
  using assms
proof (induction as arbitrary: le)
  case Nil
  show ?case by auto
next
  case (Cons a as)
  from Cons.prems have rest: "\<forall>a\<in>set as. a < max_retries self \<longrightarrow> time_sleep (env a) (retry_delay self) = None"
    and sl: "a < max_retries self \<longrightarrow> time_sleep (env a) (retry_delay self) = None"
    by simp_all
  show ?case
  proof (cases "fst (attempt_body self (env a) fp tn)")
    case (Inr out)
    obtain p ok msg where out: "out = (p, ok, msg)" by (cases out) auto
    with Inr have "p = fp" using attempt_body_path [of self "env a" fp tn p ok msg] by simp
    with Inr out show ?thesis by (auto split: prod.splits)
  next
    case (Inl ex)
    then show ?thesis
      using Cons.IH [OF rest, of "str ex"] sl
      by (auto split: prod.splits)
  qed
qed

lemma load_returns:
  assumes "sleeps_return self env"
  shows "\<exists>ok msg. fst (load_csv_to_postgres self env fp tn) = Inr (fp, ok, msg)"
proof -
  have "\<forall>a\<in>set [1..max_retries self]. a < max_retries self
          \<longrightarrow> time_sleep (env a) (retry_delay self) = None"
    using assms by (auto simp: sleeps_return_def list_all_iff)
  from attempts_return [OF this] show ?thesis
    by (simp add: load_csv_to_postgres_def)
qed

lemma attempts_message:
  assumes "fst (attempts self env fp tn as le) = Inr (p, ok, msg)"
  shows "p = fp \<and> (ok \<longrightarrow> msg = [])
       \<and> ((as \<noteq> [] \<or> le \<noteq> []) \<and> (\<forall>a\<in>set as. \<forall>ex. raised self (env a) fp tn = Some ex \<longrightarrow> str ex \<noteq> [])
            \<longrightarrow> msg = [] \<longrightarrow> ok)"
  using assms
proof (induction as arbitrary: le)
  case Nil
  then show ?case by simp
next
  case (Cons a as)
  show ?case
  proof (cases "fst (attempt_body self (env a) fp tn)")
    case (Inr out)
    then show ?thesis
      using Cons.prems attempt_body_path [of self "env a" fp tn p ok msg]
      by (auto split: prod.splits)
  next
    case (Inl ex)
    then have r: "raised self (env a) fp tn = Some ex" by (simp add: raised_Some)
    show ?thesis
    proof (cases "is_EmptyDataError ex")
      case True
      then show ?thesis using Cons.prems Inl by (auto split: prod.splits)
    next
      case False
      then have "fst (attempts self env fp tn as (str ex)) = Inr (p, ok, msg)"
        using Cons.prems Inl by (auto split: prod.splits if_splits option.splits)
      from Cons.IH [OF this] show ?thesis using r by auto
    qed
  qed
qed

subsection \<open>Missing connection parameters\<close>

lemma missing_credentials_body:
  assumes "\<not> list_all truthy [db_host self, db_user self, db_password self, db_name self]"
  shows "attempt_body self e fp tn = (Inl (Exn ValueError credentials_message), [CredentialsError])"
  using assms by (simp add: attempt_body_def create_db_engine_def)

lemma missing_credentials_retryable:
  assumes "\<not> list_all truthy [db_host self, db_user self, db_password self, db_name self]"
  shows "raised self e fp tn = Some (Exn ValueError credentials_message)"
    and "retryable self e fp tn"
  using missing_credentials_body [OF assms]
  by (simp_all add: raised_def retryable_def is_EmptyDataError_def)

lemma missing_credentials_trace:
  assumes "\<not> list_all truthy [db_host self, db_user self, db_password self, db_name self]"
  shows "files_read (snd (attempts self env fp tn as le)) = []
       \<and> credentials_errors (snd (attempts self env fp tn as le))
           = attempts_made (snd (attempts self env fp tn as le))"
proof (induction as arbitrary: le)
  case Nil
  show ?case by simp
next
  case (Cons a as)
  show ?case
    using missing_credentials_body [OF assms, of "env a" fp tn] Cons.IH [of credentials_message]
    by (auto simp: is_EmptyDataError_def dispose_def split: prod.splits option.splits)
qed

section \<open>Collecting the results\<close>

lemma futures_length: "length (futures self env) = length (files_to_load self)"
  by (simp add: futures_def tasks_def)

lemma futures_nth:
  "i < length (files_to_load self) \<Longrightarrow>
     futures self env ! i
       = fst (load_csv_to_postgres self (env i) (fst (tasks self ! i)) (snd (tasks self ! i)))"
  by (simp add: futures_def tasks_def nth_enumerate_eq split: prod.splits)

lemma futures_return:
  assumes "sleeps_return self (env i)" "i < length (files_to_load self)"
  shows "\<exists>ok msg. futures self env ! i = Inr (fst (tasks self ! i), ok, msg)"
  using load_returns [OF assms(1)] futures_nth [OF assms(2)]
  by simp

lemma collect_returned:
  "\<forall>r\<in>set rs. \<exists>out. r = Inr out \<Longrightarrow>
     collect self rs
       = Inr (self\<lparr>successful_files := successful_files self @ succeeded_paths (map projr rs),
                   failed_files := failed_files self @ failed_pairs (map projr rs)\<rparr>)"
proof (induction rs arbitrary: self)
  case Nil
  show ?case by (simp add: succeeded_paths_def failed_pairs_def)
next
  case (Cons r rs)
  then obtain p ok msg where r: "r = Inr (p, ok, msg)" by (metis list.set_intros(1) prod_cases3)
  from Cons.prems have "\<forall>r\<in>set rs. \<exists>out. r = Inr out" by simp
  from Cons.IH [OF this] show ?case
    by (simp add: r succeeded_paths_def failed_pairs_def)
qed

lemma collect_Inr:
  "collect self rs = Inr self' \<Longrightarrow> \<forall>r\<in>set rs. \<exists>out. r = Inr out"
proof (induction rs arbitrary: self)
  case Nil
  show ?case by simp
next
  case (Cons r rs)
  show ?case
  proof (cases r)
    case (Inl ex)
    with Cons.prems show ?thesis by simp
  next
    case (Inr out)
    obtain p ok msg where "out = (p, ok, msg)" by (cases out) auto
    with Inr Cons.prems Cons.IH show ?thesis by auto
  qed
qed

lemma completion_order_bound:
  "completion_order self order \<Longrightarrow> i \<in> set order \<Longrightarrow> i < length (files_to_load self)"
  unfolding completion_order_def by (metis atLeastLessThan_iff set_mset_mset set_upt)

text \<open>A run that returns has added the outcomes of its futures, in completion order.\<close>

lemma run_Inr:
  assumes "run self env order = Inr self'"
  shows "0 < max_workers self"
    and "\<forall>i\<in>set order. \<exists>out. futures self env ! i = Inr out"
    and "self' = self\<lparr>successful_files := successful_files self @ succeeded_paths (outcomes self env order),
                       failed_files := failed_files self @ failed_pairs (outcomes self env order)\<rparr>"
proof -
  show w: "0 < max_workers self"
    using assms by (auto simp: run_def split: if_splits)
  then have c: "collect self (map (\<lambda>i. futures self env ! i) order) = Inr self'"
    using assms by (simp add: run_def)
  from collect_Inr [OF this] show all: "\<forall>i\<in>set order. \<exists>out. futures self env ! i = Inr out"
    by simp
  then have "\<forall>r\<in>set (map (\<lambda>i. futures self env ! i) order). \<exists>out. r = Inr out"
    by simp
  from collect_returned [OF this, of self] c
  show "self' = self\<lparr>successful_files := successful_files self @ succeeded_paths (outcomes self env order),
                       failed_files := failed_files self @ failed_pairs (outcomes self env order)\<rparr>"
    by (simp add: outcomes_def comp_def)
qed

lemma run_returns:
  assumes "0 < max_workers self" "\<forall>i<length (files_to_load self). sleeps_return self (env i)"
    and "completion_order self order"
  shows "run self env order
           = Inr (self\<lparr>successful_files := successful_files self @ succeeded_paths (outcomes self env order),
                       failed_files := failed_files self @ failed_pairs (outcomes self env order)\<rparr>)"
proof -
  have "\<exists>out. futures self env ! i = Inr out" if "i \<in> set order" for i
  proof -
    from that have b: "i < length (files_to_load self)" by (rule completion_order_bound [OF assms(3)])
    with assms(2) have "sleeps_return self (env i)" by blast
    from futures_return [where env = env and i = i, OF this b] show ?thesis by blast
  qed
  then have "\<forall>r\<in>set (map (\<lambda>i. futures self env ! i) order). \<exists>out. r = Inr out"
    by simp
  from collect_returned [OF this, of self] show ?thesis
    using assms(1) by (simp add: run_def outcomes_def comp_def)
qed

text \<open>The triple a future holds carries the path of its task.\<close>

lemma futures_path:
  assumes "i < length (files_to_load self)" "futures self env ! i = Inr (p, ok, msg)"
  shows "p = fst (tasks self ! i)"
proof -
  have "fst (attempts self (env i) (fst (tasks self ! i)) (snd (tasks self ! i)) [1..max_retries self] [])
          = Inr (p, ok, msg)"
    using assms by (simp add: futures_nth load_csv_to_postgres_def)
  from attempts_message [OF this] show ?thesis by blast
qed

lemma outcomes_paths:
  assumes "\<forall>i\<in>set order. \<exists>out. futures self env ! i = Inr out" "completion_order self order"
  shows "map fst (outcomes self env order) = map (\<lambda>i. fst (tasks self ! i)) order"
  unfolding outcomes_def
proof (simp, intro ballI)
  fix i assume i: "i \<in> set order"
  then have b: "i < length (files_to_load self)" by (rule completion_order_bound [OF assms(2)])
  from assms(1) i obtain out where "futures self env ! i = Inr out"
    by blast
  moreover obtain p ok msg where "out = (p, ok, msg)"
    by (cases out) auto
  ultimately have f: "futures self env ! i = Inr (p, ok, msg)"
    by simp
  with futures_path [OF b f] show "fst (projr (futures self env ! i)) = fst (tasks self ! i)"
    by simp
qed

lemma report_partition:
  "mset (succeeded_paths outs) + mset (map fst (failed_pairs outs)) = mset (map fst outs)"
  by (induction outs) (auto simp: succeeded_paths_def failed_pairs_def)

lemma report_length:
  "length (succeeded_paths outs) + length (failed_pairs outs) = length outs"
  by (induction outs) (auto simp: succeeded_paths_def failed_pairs_def)

lemma completion_order_paths:
  assumes "completion_order self order"
  shows "mset (map (\<lambda>i. fst (tasks self ! i)) order) = mset (map fst (tasks self))"
proof -
  have "mset (map (\<lambda>i. fst (tasks self ! i)) order) = image_mset (\<lambda>i. fst (tasks self ! i)) (mset order)"
    by simp
  also have "\<dots> = mset (map (\<lambda>i. fst (tasks self ! i)) [0..<length (tasks self)])"
    using assms by (simp add: completion_order_def tasks_def)
  also have "map (\<lambda>i. fst (tasks self ! i)) [0..<length (tasks self)] = map fst (tasks self)"
    by (rule nth_equalityI) simp_all
  finally show ?thesis .
qed

lemma missing_credentials_outcomes:
  assumes "\<not> list_all truthy [db_host self, db_user self, db_password self, db_name self]"
    and "1 \<le> max_retries self" and "\<forall>i<length (files_to_load self). sleeps_return self (envs i)"
    and "completion_order self order"
  shows "outcomes self envs order = map (\<lambda>i. (fst (tasks self ! i), False, credentials_message)) order"
  unfolding outcomes_def
proof (rule map_cong [OF refl])
  fix i assume "i \<in> set order"
  then have i: "i < length (files_to_load self)" by (rule completion_order_bound [OF assms(4)])
  have "\<forall>a\<in>{1..max_retries self}. retryable self (envs i a) (fst (tasks self ! i)) (snd (tasks self ! i))"
    using missing_credentials_retryable(2) [OF assms(1)] by simp
  from attempts_exhausted [OF assms(2) _ this] assms(3) i
  have "fst (load_csv_to_postgres self (envs i) (fst (tasks self ! i)) (snd (tasks self ! i)))
          = Inr (fst (tasks self ! i), False, credentials_message)"
    using missing_credentials_retryable(1) [OF assms(1)] by auto
  then show "projr (futures self envs ! i) = (fst (tasks self ! i), False, credentials_message)"
    using futures_nth [OF i, of envs] by simp
qed

section \<open>Paths\<close>

lemma takeWhile_stops: "c \<in> set xs \<Longrightarrow> length (takeWhile (\<lambda>x. x \<noteq> c) xs) < length xs"
  by (induction xs) auto

lemma takeWhile_rev_stops: "c \<in> set p \<Longrightarrow> length (takeWhile (\<lambda>x. x \<noteq> c) (rev p)) < length p"
  using takeWhile_stops [of c "rev p"] by simp

lemma rfind_bounds: "- 1 \<le> rfind p c \<and> rfind p c < int (length p)"
proof (cases "c \<in> set p")
  case True
  from takeWhile_rev_stops [OF this] show ?thesis
    using True by (simp add: rfind_def)
next
  case False
  then show ?thesis by (simp add: rfind_def)
qed

lemma rfind_nth:
  assumes "c \<in> set p"
  shows "0 \<le> rfind p c \<and> p ! nat (rfind p c) = c"
proof -
  let ?n = "length (takeWhile (\<lambda>x. x \<noteq> c) (rev p))"
  have n: "?n < length (rev p)"
    using assms by (simp add: takeWhile_rev_stops)
  then have "\<not> (rev p ! ?n \<noteq> c)" by (rule nth_length_takeWhile)
  moreover have "rev p ! ?n = p ! (length p - Suc ?n)"
    using n by (simp add: rev_nth)
  moreover have "nat (rfind p c) = length p - Suc ?n" and "0 \<le> rfind p c"
    using assms n by (simp_all add: rfind_def)
  ultimately show ?thesis by simp
qed

lemma rfind_last:
  assumes "c \<notin> set e"
  shows "rfind (s @ c # e) c = int (length s)"
proof -
  have "takeWhile (\<lambda>x. x \<noteq> c) (rev e @ c # rev s) = rev e"
    using assms by (subst takeWhile_append2) auto
  then show ?thesis by (simp add: rfind_def)
qed

lemma rfind_before:
  assumes "d \<notin> set e" "d \<noteq> c"
  shows "rfind (s @ c # e) d = rfind s d"
proof -
  have "takeWhile (\<lambda>x. x \<noteq> d) (rev e @ c # rev s) = rev e @ c # takeWhile (\<lambda>x. x \<noteq> d) (rev s)"
    using assms by (subst takeWhile_append2) auto
  then show ?thesis using assms by (simp add: rfind_def)
qed

lemma splitext_extension:
  assumes "CHR ''.'' \<notin> set e" "CHR ''/'' \<notin> set e"
  shows "splitext (s @ ''.'' @ e)
           = (if \<exists>c\<in>set (basename s). c \<noteq> CHR ''.'' then (s, ''.'' @ e) else (s @ ''.'' @ e, []))"
proof -
  let ?p = "s @ CHR ''.'' # e"
  let ?i = "nat (rfind s (CHR ''/'') + 1)"
  have dot: "rfind ?p (CHR ''.'') = int (length s)"
    using assms(1) by (rule rfind_last)
  have sep: "rfind ?p (CHR ''/'') = rfind s (CHR ''/'')"
    using assms(2) by (simp add: rfind_before)
  have i: "?i \<le> length s" and lt: "rfind s (CHR ''/'') < int (length s)"
    using rfind_bounds [of s "CHR ''/''"] by linarith+
  have "take (length s - ?i) (drop ?i ?p) = drop ?i s"
    using i by simp
  then have nd: "not_all_dots ?p ?i (length s) = (\<exists>c\<in>set (basename s). c \<noteq> CHR ''.'')"
    by (simp add: not_all_dots_def basename_def list_ex_iff)
  show ?thesis
    using lt by (simp add: splitext_def dot sep nd)
qed

lemma splitext_no_dot:
  assumes "CHR ''.'' \<notin> set (basename p)"
  shows "splitext p = (p, [])"
proof (cases "rfind p (CHR ''.'') > rfind p (CHR ''/'')")
  case False
  then show ?thesis by (simp add: splitext_def)
next
  case True
  let ?j = "nat (rfind p (CHR ''.''))"
  let ?i = "nat (rfind p (CHR ''/'') + 1)"
  have "CHR ''.'' \<in> set p"
    using True rfind_bounds [of p "CHR ''/''"] by (auto simp: rfind_def split: if_splits)
  then have j: "0 \<le> rfind p (CHR ''.'')" "p ! ?j = CHR ''.''"
    using rfind_nth by blast+
  have "?i \<le> ?j" "?j < length p"
    using True j(1) rfind_bounds [of p "CHR ''.''"] by linarith+
  then have "drop ?i p ! (?j - ?i) = p ! ?j" and "?j - ?i < length (drop ?i p)"
    by simp_all
  then have "p ! ?j \<in> set (drop ?i p)"
    by (metis nth_mem)
  with j(2) assms show ?thesis by (simp add: basename_def)
qed

lemma up_to_last_dot_extension:
  "CHR ''.'' \<notin> set e \<Longrightarrow> up_to_last_dot (s @ ''.'' @ e) = s"
  by (simp add: up_to_last_dot_def rfind_last)

section \<open>Evaluating the samples\<close>

lemmas sample_defs = sample_loader_def init_def answering_def unreachable_def sample_frame_def header_only_def
  after_refusal_def

section \<open>The validator\<close>

text \<open>
  C8. For every dataset with zero rows, or zero columns, or at least one duplicated column
  name, \<open>validate_csv\<close> returns false.
\<close>

theorem validate_csv_rejects:
  "rows df = [] \<or> columns df = [] \<or> \<not> distinct (columns df)
     \<Longrightarrow> fst (validate_csv df file_path) = False"
  by (auto simp: validate_csv_def df_empty_def has_duplicated_columns_def Let_def)

theorem validate_csv_rejects_witness:
  "(rows \<lparr>columns = [''id'', ''id''], rows = [[Some ''1'', None]]\<rparr> = []
      \<or> columns \<lparr>columns = [''id'', ''id''], rows = [[Some ''1'', None]]\<rparr> = []
      \<or> \<not> distinct (columns \<lparr>columns = [''id'', ''id''], rows = [[Some ''1'', None]]\<rparr>))
   \<and> fst (validate_csv \<lparr>columns = [''id'', ''id''], rows = [[Some ''1'', None]]\<rparr> ''a.csv'') = False"
  using validate_csv_rejects [of "\<lparr>columns = [''id'', ''id''], rows = [[Some ''1'', None]]\<rparr>" "''a.csv''"]
  by simp

text \<open>
  C9. For every dataset with at least one row, at least one column and pairwise distinct
  column names, \<open>validate_csv\<close> returns true; when some row has all its cells missing the
  only line logged is the warning about completely empty rows, and otherwise nothing is
  logged.
\<close>

theorem validate_csv_accepts:
  "rows df \<noteq> [] \<Longrightarrow> columns df \<noteq> [] \<Longrightarrow> distinct (columns df)
     \<Longrightarrow> validate_csv df file_path =
           (True, if has_empty_row df
                  then [(WARNING, ''CSV file '' @ quoted file_path @ '' contains completely empty rows.'')]
                  else [])"
  by (simp add: validate_csv_def df_empty_def has_duplicated_columns_def Let_def)

theorem validate_csv_accepts_witness:
  "rows \<lparr>columns = [''id'', ''city''], rows = [[Some ''1'', Some ''Pune''], [None, None]]\<rparr> \<noteq> []
   \<and> columns \<lparr>columns = [''id'', ''city''], rows = [[Some ''1'', Some ''Pune''], [None, None]]\<rparr> \<noteq> []
   \<and> distinct (columns \<lparr>columns = [''id'', ''city''], rows = [[Some ''1'', Some ''Pune''], [None, None]]\<rparr>)
   \<and> has_empty_row \<lparr>columns = [''id'', ''city''], rows = [[Some ''1'', Some ''Pune''], [None, None]]\<rparr>
   \<and> fst (validate_csv \<lparr>columns = [''id'', ''city''], rows = [[Some ''1'', Some ''Pune''], [None, None]]\<rparr> ''a.csv'')"
  using validate_csv_accepts
    [of "\<lparr>columns = [''id'', ''city''], rows = [[Some ''1'', Some ''Pune''], [None, None]]\<rparr>" "''a.csv''"]
  by (simp add: has_empty_row_def)

text \<open>On the sample platform a sleep of two seconds returns.\<close>

lemma cpython_sleeps_return:
  assumes "\<And>a. time_sleep (env a) = cpython_sleep" and "retry_delay self = Finite 2"
  shows "sleeps_return self env"
  by (simp add: sleeps_return_def list_all_iff assms)

lemma sample_sleeps_return:
  "sleeps_return (sample_loader host files) (\<lambda>a. answering rd)"
  "sleeps_return (sample_loader host files) (\<lambda>a. unreachable)"
  "sleeps_return (sample_loader host files) (after_refusal rd)"
  "sleeps_return (sample_loader host files) (three_files_env i)"
  "sleeps_return (sample_loader host files) (all_failing_env i)"
  by (rule cpython_sleeps_return;
      simp add: sample_defs three_files_env_def all_failing_env_def)+

section \<open>Missing connection parameters\<close>

text \<open>
  C1, as the code has it. When a connection parameter is missing or empty, no attempt of any
  load reads a file, and every attempt raises the credentials error once, inside the
  \<open>try\<close>, where it is handled like any retryable failure. With at least one attempt
  configured and sleeps that return, each load makes \<open>max_retries\<close> attempts and returns
  a failed triple carrying the credentials message; the run, when its pool can be built, does
  not abort: it returns with every submitted file appended to \<open>failed_files\<close> under that
  message.
\<close>

theorem missing_credentials_fail_every_load:
  assumes "\<not> list_all truthy [db_host self, db_user self, db_password self, db_name self]"
  shows "files_read (snd (load_csv_to_postgres self env file_path table_name)) = []
       \<and> credentials_errors (snd (load_csv_to_postgres self env file_path table_name))
           = attempts_made (snd (load_csv_to_postgres self env file_path table_name))
       \<and> (1 \<le> max_retries self \<and> sleeps_return self env \<longrightarrow>
            fst (load_csv_to_postgres self env file_path table_name)
              = Inr (file_path, False, credentials_message)
            \<and> attempts_made (snd (load_csv_to_postgres self env file_path table_name))
                = nat (max_retries self))
       \<and> (1 \<le> max_retries self \<and> 0 < max_workers self \<and> completion_order self order
            \<and> (\<forall>i<length (files_to_load self). sleeps_return self (envs i)) \<longrightarrow>
            run self envs order
              = Inr (self\<lparr>failed_files := failed_files self
                       @ map (\<lambda>i. (fst (tasks self ! i), credentials_message)) order\<rparr>))"
proof (intro conjI impI)
  show "files_read (snd (load_csv_to_postgres self env file_path table_name)) = []"
    using missing_credentials_trace [OF assms] by (simp add: load_csv_to_postgres_def)
  show "credentials_errors (snd (load_csv_to_postgres self env file_path table_name))
           = attempts_made (snd (load_csv_to_postgres self env file_path table_name))"
    using missing_credentials_trace [OF assms] by (simp add: load_csv_to_postgres_def)
next
  assume c: "1 \<le> max_retries self \<and> sleeps_return self env"
  have "\<forall>a\<in>{1..max_retries self}. retryable self (env a) file_path table_name"
    using missing_credentials_retryable(2) [OF assms] by simp
  from attempts_exhausted [OF conjunct1 [OF c] conjunct2 [OF c] this]
  show "fst (load_csv_to_postgres self env file_path table_name) = Inr (file_path, False, credentials_message)"
    and "attempts_made (snd (load_csv_to_postgres self env file_path table_name)) = nat (max_retries self)"
    using missing_credentials_retryable(1) [OF assms] by auto
next
  assume w: "1 \<le> max_retries self \<and> 0 < max_workers self \<and> completion_order self order
            \<and> (\<forall>i<length (files_to_load self). sleeps_return self (envs i))"
  have outs: "outcomes self envs order = map (\<lambda>i. (fst (tasks self ! i), False, credentials_message)) order"
    using missing_credentials_outcomes [OF assms] w by blast
  have "run self envs order
          = Inr (self\<lparr>successful_files := successful_files self @ succeeded_paths (outcomes self envs order),
                      failed_files := failed_files self @ failed_pairs (outcomes self envs order)\<rparr>)"
    using run_returns w by blast
  then show "run self envs order
               = Inr (self\<lparr>failed_files := failed_files self
                        @ map (\<lambda>i. (fst (tasks self ! i), credentials_message)) order\<rparr>)"
    by (simp add: outs succeeded_paths_def failed_pairs_def comp_def)
qed

theorem missing_credentials_fail_every_load_witness:
  "\<not> list_all truthy [db_host (sample_loader (Some []) [''a.csv'', ''b.csv'']),
        db_user (sample_loader (Some []) [''a.csv'', ''b.csv'']),
        db_password (sample_loader (Some []) [''a.csv'', ''b.csv'']),
        db_name (sample_loader (Some []) [''a.csv'', ''b.csv''])]
   \<and> 1 \<le> max_retries (sample_loader (Some []) [''a.csv'', ''b.csv''])
   \<and> sleeps_return (sample_loader (Some []) [''a.csv'', ''b.csv'']) (\<lambda>a. answering (Inr sample_frame))
   \<and> 0 < max_workers (sample_loader (Some []) [''a.csv'', ''b.csv''])
   \<and> completion_order (sample_loader (Some []) [''a.csv'', ''b.csv'']) [1, 0]
   \<and> files_read (snd (load_csv_to_postgres (sample_loader (Some []) [''a.csv'', ''b.csv''])
        (\<lambda>a. answering (Inr sample_frame)) ''data/data-1/a.csv'' ''a'')) = []
   \<and> fst (load_csv_to_postgres (sample_loader (Some []) [''a.csv'', ''b.csv''])
        (\<lambda>a. answering (Inr sample_frame)) ''data/data-1/a.csv'' ''a'')
        = Inr (''data/data-1/a.csv'', False, credentials_message)
   \<and> credentials_errors (snd (load_csv_to_postgres (sample_loader (Some []) [''a.csv'', ''b.csv''])
        (\<lambda>a. answering (Inr sample_frame)) ''data/data-1/a.csv'' ''a'')) = 3
   \<and> run (sample_loader (Some []) [''a.csv'', ''b.csv'']) (\<lambda>i a. answering (Inr sample_frame)) [1, 0]
        = Inr ((sample_loader (Some []) [''a.csv'', ''b.csv''])
                 \<lparr>failed_files := [(''data/data-1/b.csv'', credentials_message),
                                   (''data/data-1/a.csv'', credentials_message)]\<rparr>)"
proof -
  let ?L = "sample_loader (Some []) [''a.csv'', ''b.csv'']"
  have h: "\<not> list_all truthy [db_host ?L, db_user ?L, db_password ?L, db_name ?L]"
    by (simp add: sample_defs)
  have c: "1 \<le> max_retries ?L" "0 < max_workers ?L"
    by (simp_all add: sample_defs)
  have s: "sleeps_return ?L (\<lambda>a. answering (Inr sample_frame))"
    by (rule sample_sleeps_return)
  have o: "completion_order ?L [1, 0]"
    by (simp add: completion_order_def sample_defs upt_rec)
  have t: "tasks ?L = [(''data/data-1/a.csv'', ''a''), (''data/data-1/b.csv'', ''b'')]"
    by (simp add: tasks_def task_of_def join_def splitext_def rfind_def not_all_dots_def sample_defs)
  have m: "nat (max_retries ?L) = 3" "failed_files ?L = []"
    by (simp_all add: sample_defs)
  note inst = missing_credentials_fail_every_load
         [OF h, of "\<lambda>a. answering (Inr sample_frame)" "''data/data-1/a.csv''" "''a''" "[1, 0]"
            "\<lambda>i a. answering (Inr sample_frame)"]
  have "files_read (snd (load_csv_to_postgres ?L (\<lambda>a. answering (Inr sample_frame)) ''data/data-1/a.csv'' ''a'')) = []"
    using inst by blast
  moreover have "fst (load_csv_to_postgres ?L (\<lambda>a. answering (Inr sample_frame)) ''data/data-1/a.csv'' ''a'')
        = Inr (''data/data-1/a.csv'', False, credentials_message)"
    using inst c s by blast
  moreover have "credentials_errors (snd (load_csv_to_postgres ?L (\<lambda>a. answering (Inr sample_frame))
        ''data/data-1/a.csv'' ''a'')) = 3"
    using inst c s m by simp
  moreover have "run ?L (\<lambda>i a. answering (Inr sample_frame)) [1, 0]
        = Inr (?L\<lparr>failed_files := [(''data/data-1/b.csv'', credentials_message),
                                   (''data/data-1/a.csv'', credentials_message)]\<rparr>)"
    using inst c s o by (simp add: t m)
  ultimately show ?thesis
    using h c s o by blast
qed

text \<open>
  Without a host the run of one file returns normally and reports the file as failed; the
  credentials error was raised three times, once per attempt.
\<close>

theorem missing_host_is_retried:
  "run (sample_loader None [''a.csv'']) (\<lambda>i a. answering (Inr sample_frame)) [0]
     = Inr ((sample_loader None [''a.csv''])\<lparr>failed_files := [(''data/data-1/a.csv'', credentials_message)]\<rparr>)
   \<and> credentials_errors (snd (load_csv_to_postgres (sample_loader None [''a.csv''])
        (\<lambda>a. answering (Inr sample_frame)) ''data/data-1/a.csv'' ''a'')) = 3"
  by (simp add: run_def futures_def tasks_def task_of_def join_def splitext_def rfind_def not_all_dots_def
      load_csv_to_postgres_def attempt_body_def create_db_engine_def sample_defs
      is_EmptyDataError_def dispose_def upto_rec1)

section \<open>The report of a run\<close>

text \<open>
  C2, as the code has it. For the first run of a freshly constructed loader (both lists
  empty), whenever \<open>run\<close> returns, the two lists partition the submitted tasks: together
  they hold every submitted path exactly as often as it was submitted, their lengths add up
  to the number of files, and when the paths are distinct no path occurs twice or in both
  lists. The run returns when its pool can be built and the sleeps of every load return.
  The lists belong to the object: a later run appends to what an earlier run left.
\<close>

theorem first_run_partitions:
  assumes "successful_files self = []" and "failed_files self = []"
    and "completion_order self order"
  shows "(\<forall>self'. run self env order = Inr self' \<longrightarrow>
            mset (successful_files self') + mset (map fst (failed_files self')) = mset (map fst (tasks self))
            \<and> length (successful_files self') + length (failed_files self') = length (files_to_load self)
            \<and> (distinct (map fst (tasks self))
                 \<longrightarrow> distinct (successful_files self' @ map fst (failed_files self'))))
       \<and> (0 < max_workers self \<and> (\<forall>i<length (files_to_load self). sleeps_return self (env i))
            \<longrightarrow> (\<exists>self'. run self env order = Inr self'))"
proof (intro conjI allI impI)
  fix self'
  assume r: "run self env order = Inr self'"
  let ?outs = "outcomes self env order"
  have self': "self' = self\<lparr>successful_files := successful_files self @ succeeded_paths ?outs,
                             failed_files := failed_files self @ failed_pairs ?outs\<rparr>"
    using r by (rule run_Inr(3))
  have all: "\<forall>i\<in>set order. \<exists>out. futures self env ! i = Inr out"
    using r by (rule run_Inr(2))
  show part: "mset (successful_files self') + mset (map fst (failed_files self')) = mset (map fst (tasks self))"
    using assms(1,2) report_partition [of ?outs] outcomes_paths [OF all assms(3)]
      completion_order_paths [OF assms(3)]
    by (simp add: self')
  have "length order = length (files_to_load self)"
    using assms(3) by (metis completion_order_def length_upt minus_nat.diff_0 size_mset)
  then show "length (successful_files self') + length (failed_files self') = length (files_to_load self)"
    using assms(1,2) report_length [of ?outs] by (simp add: self' outcomes_def)
  have m: "mset (successful_files self' @ map fst (failed_files self')) = mset (map fst (tasks self))"
    using part by (simp add: ac_simps)
  assume "distinct (map fst (tasks self))"
  with m show "distinct (successful_files self' @ map fst (failed_files self'))"
    by (metis mset_eq_imp_distinct_iff)
next
  assume "0 < max_workers self \<and> (\<forall>i<length (files_to_load self). sleeps_return self (env i))"
  then show "\<exists>self'. run self env order = Inr self'"
    using run_returns [of self env order] assms(3) by blast
qed

theorem first_run_partitions_witness:
  "successful_files (sample_loader (Some ''db'') [''a.csv'', ''b.csv'', ''c.csv'']) = []
   \<and> failed_files (sample_loader (Some ''db'') [''a.csv'', ''b.csv'', ''c.csv'']) = []
   \<and> completion_order (sample_loader (Some ''db'') [''a.csv'', ''b.csv'', ''c.csv'']) [2, 0, 1]
   \<and> 0 < max_workers (sample_loader (Some ''db'') [''a.csv'', ''b.csv'', ''c.csv''])
   \<and> sleeps_return (sample_loader (Some ''db'') [''a.csv'', ''b.csv'', ''c.csv'']) (three_files_env 0)
   \<and> sleeps_return (sample_loader (Some ''db'') [''a.csv'', ''b.csv'', ''c.csv'']) (three_files_env 1)
   \<and> sleeps_return (sample_loader (Some ''db'') [''a.csv'', ''b.csv'', ''c.csv'']) (three_files_env 2)
   \<and> (\<exists>self'. run (sample_loader (Some ''db'') [''a.csv'', ''b.csv'', ''c.csv'']) three_files_env [2, 0, 1]
                   = Inr self'
         \<and> successful_files self' = [''data/data-1/c.csv'', ''data/data-1/a.csv'']
         \<and> failed_files self' = [(''data/data-1/b.csv'', ''Empty or malformed CSV'')]
         \<and> mset (successful_files self') + mset (map fst (failed_files self'))
              = mset [''data/data-1/a.csv'', ''data/data-1/b.csv'', ''data/data-1/c.csv'']
         \<and> length (successful_files self') + length (failed_files self') = 3
         \<and> distinct (successful_files self' @ map fst (failed_files self')))"
proof -
  let ?L = "sample_loader (Some ''db'') [''a.csv'', ''b.csv'', ''c.csv'']"
  have h: "successful_files ?L = []" "failed_files ?L = []"
    and w: "0 < max_workers ?L"
    by (simp_all add: sample_defs)
  have sl: "sleeps_return ?L (three_files_env i)" for i
    by (rule sample_sleeps_return)
  have o: "completion_order ?L [2, 0, 1]"
    by (simp add: completion_order_def sample_defs upt_rec)
  have t: "tasks ?L = [(''data/data-1/a.csv'', ''a''), (''data/data-1/b.csv'', ''b''), (''data/data-1/c.csv'', ''c'')]"
    by (simp add: tasks_def task_of_def join_def splitext_def rfind_def not_all_dots_def sample_defs)
  have ok: "fst (load_csv_to_postgres ?L (three_files_env i) p tn) = Inr (p, True, [])" if "i \<noteq> 1" for i p tn
    using that
    by (simp add: three_files_env_def load_csv_to_postgres_def attempt_body_def create_db_engine_def
        sample_defs validate_csv_def df_empty_def has_duplicated_columns_def has_empty_row_def upto_rec1)
  have bad: "fst (load_csv_to_postgres ?L (three_files_env 1) p tn) = Inr (p, False, ''Empty or malformed CSV'')"
    for p tn
    by (simp add: three_files_env_def load_csv_to_postgres_def attempt_body_def create_db_engine_def
        sample_defs is_EmptyDataError_def upto_rec1)
  have f: "futures ?L three_files_env
             = [Inr (''data/data-1/a.csv'', True, []),
                Inr (''data/data-1/b.csv'', False, ''Empty or malformed CSV''),
                Inr (''data/data-1/c.csv'', True, [])]"
    using bad by (simp add: futures_def t ok)
  have r: "run ?L three_files_env [2, 0, 1]
             = Inr (?L\<lparr>successful_files := [''data/data-1/c.csv'', ''data/data-1/a.csv''],
                        failed_files := [(''data/data-1/b.csv'', ''Empty or malformed CSV'')]\<rparr>)"
    using h w by (simp add: run_def f)
  have l: "length (files_to_load ?L) = 3"
    by (simp add: sample_defs)
  have d: "distinct (map fst (tasks ?L))"
    by (simp add: t)
  note inst = first_run_partitions [OF h o, of three_files_env]
  from inst w sl obtain self' where s1: "run ?L three_files_env [2, 0, 1] = Inr self'"
    by blast
  with inst have
    s: "mset (successful_files self') + mset (map fst (failed_files self')) = mset (map fst (tasks ?L))"
      "length (successful_files self') + length (failed_files self') = length (files_to_load ?L)"
      "distinct (map fst (tasks ?L)) \<longrightarrow> distinct (successful_files self' @ map fst (failed_files self'))"
    by blast+
  from s1 r have "successful_files self' = [''data/data-1/c.csv'', ''data/data-1/a.csv'']"
    and "failed_files self' = [(''data/data-1/b.csv'', ''Empty or malformed CSV'')]"
    by simp_all
  moreover have "mset (successful_files self') + mset (map fst (failed_files self'))
              = mset [''data/data-1/a.csv'', ''data/data-1/b.csv'', ''data/data-1/c.csv'']"
    using s(1) by (simp add: t)
  moreover have "length (successful_files self') + length (failed_files self') = 3"
    using s(2) l by simp
  moreover have "distinct (successful_files self' @ map fst (failed_files self'))"
    using s(3) d by blast
  ultimately show ?thesis
    using h o w sl s1 by blast
qed

text \<open>
  A second run on the same object: the report of the run over one file lists that file
  twice.
\<close>

theorem second_run_accumulates:
  "run (sample_loader (Some ''db'') [''a.csv'']) (\<lambda>i a. answering (Inr sample_frame)) [0]
     = Inr ((sample_loader (Some ''db'') [''a.csv''])\<lparr>successful_files := [''data/data-1/a.csv'']\<rparr>)
   \<and> run ((sample_loader (Some ''db'') [''a.csv''])\<lparr>successful_files := [''data/data-1/a.csv'']\<rparr>)
         (\<lambda>i a. answering (Inr sample_frame)) [0]
     = Inr ((sample_loader (Some ''db'') [''a.csv''])
              \<lparr>successful_files := [''data/data-1/a.csv'', ''data/data-1/a.csv'']\<rparr>)"
  by (simp add: run_def futures_def tasks_def task_of_def join_def splitext_def rfind_def not_all_dots_def
      load_csv_to_postgres_def attempt_body_def create_db_engine_def sample_defs
      validate_csv_def df_empty_def has_duplicated_columns_def has_empty_row_def
      is_EmptyDataError_def dispose_def upto_rec1)

section \<open>Failures of one load\<close>

text \<open>
  The handler of \<open>EmptyDataError\<close>: when the attempts before attempt \<open>k\<close> fail retryably,
  each followed by a sleep that returns, and attempt \<open>k\<close> raises \<open>EmptyDataError\<close>, the
  load stops there with the message \<open>Empty or malformed CSV\<close>, after \<open>k\<close> attempts and
  no sleep after the last.
\<close>

lemma empty_data_aborts:
  assumes "1 \<le> k" and "k \<le> max_retries self"
    and "\<forall>a\<in>{1..<k}. retryable self (env a) file_path table_name
           \<and> time_sleep (env a) (retry_delay self) = None"
    and "raised self (env k) file_path table_name = Some ex" and "is_EmptyDataError ex"
  shows "fst (load_csv_to_postgres self env file_path table_name)
             = Inr (file_path, False, ''Empty or malformed CSV'')
           \<and> attempts_made (snd (load_csv_to_postgres self env file_path table_name)) = nat k
           \<and> sleeps (snd (load_csv_to_postgres self env file_path table_name))
                = replicate (nat (k - 1)) (retry_delay self)"
proof -
  let ?m = "max_retries self"
  have split: "[1..?m] = [1..k - 1] @ k # [k + 1..?m]"
    using assms(1,2) by (rule upto_split3)
  have pre: "\<forall>a\<in>set [1..k - 1]. retryable self (env a) file_path table_name \<and> a < ?m
      \<and> time_sleep (env a) (retry_delay self) = None"
    using assms(2,3) by auto
  from attempts_retry_prefix [OF pre, of "k # [k + 1..?m]" "[]"] obtain le' where
    le': "fst (attempts self env file_path table_name ([1..k - 1] @ k # [k + 1..?m]) [])
            = fst (attempts self env file_path table_name (k # [k + 1..?m]) le')"
      "attempts_made (snd (attempts self env file_path table_name ([1..k - 1] @ k # [k + 1..?m]) []))
            = length [1..k - 1] + attempts_made (snd (attempts self env file_path table_name (k # [k + 1..?m]) le'))"
      "sleeps (snd (attempts self env file_path table_name ([1..k - 1] @ k # [k + 1..?m]) []))
            = replicate (length [1..k - 1]) (retry_delay self)
                @ sleeps (snd (attempts self env file_path table_name (k # [k + 1..?m]) le'))"
    by blast
  have len: "length [1..k - 1] = nat (k - 1)" by simp
  have "nat (k - 1) + 1 = nat k" using assms(1) by simp
  then show ?thesis
    using le' attempts_empty_data [where env = env and a = k, OF assms(4,5), of "[k + 1..?m]" le']
    unfolding load_csv_to_postgres_def split [symmetric] len
    by simp
qed

text \<open>
  C3. The handler that ends the retries logs that the file is empty or malformed and sets
  the message \<open>Empty or malformed CSV\<close>, but it catches \<open>EmptyDataError\<close> only. A file
  whose contents cannot be tokenised raises \<open>ParserError\<close>: the load attempts it three
  times, sleeps twice, and reports the text of the exception. So does the load of a file
  that is not there.
\<close>

theorem malformed_file_is_retried:
  "fst (load_csv_to_postgres (sample_loader (Some ''db'') [''a.csv''])
          (\<lambda>a. answering (Inl (Exn ParserError ''Error tokenizing data''))) ''data/data-1/a.csv'' ''a'')
     = Inr (''data/data-1/a.csv'', False, ''Error tokenizing data'')
   \<and> attempts_made (snd (load_csv_to_postgres (sample_loader (Some ''db'') [''a.csv''])
          (\<lambda>a. answering (Inl (Exn ParserError ''Error tokenizing data''))) ''data/data-1/a.csv'' ''a'')) = 3
   \<and> sleeps (snd (load_csv_to_postgres (sample_loader (Some ''db'') [''a.csv''])
          (\<lambda>a. answering (Inl (Exn ParserError ''Error tokenizing data''))) ''data/data-1/a.csv'' ''a''))
        = [Finite 2, Finite 2]
   \<and> fst (load_csv_to_postgres (sample_loader (Some ''db'') [''a.csv''])
          (\<lambda>a. answering (Inl (Exn OtherException ''No such file or directory''))) ''data/data-1/a.csv'' ''a'')
     = Inr (''data/data-1/a.csv'', False, ''No such file or directory'')
   \<and> attempts_made (snd (load_csv_to_postgres (sample_loader (Some ''db'') [''a.csv''])
          (\<lambda>a. answering (Inl (Exn OtherException ''No such file or directory''))) ''data/data-1/a.csv'' ''a'')) = 3
   \<and> fst (load_csv_to_postgres (sample_loader (Some ''db'') [''a.csv''])
          (\<lambda>a. answering (Inl (Exn EmptyDataError ''No columns to parse from file''))) ''data/data-1/a.csv'' ''a'')
     = Inr (''data/data-1/a.csv'', False, ''Empty or malformed CSV'')
   \<and> attempts_made (snd (load_csv_to_postgres (sample_loader (Some ''db'') [''a.csv''])
          (\<lambda>a. answering (Inl (Exn EmptyDataError ''No columns to parse from file''))) ''data/data-1/a.csv'' ''a'')) = 1"
  by (simp add: load_csv_to_postgres_def attempt_body_def create_db_engine_def sample_defs
      is_EmptyDataError_def dispose_def attempts_made_def sleeps_def upto_rec1)

text \<open>
  C4, as the code has it. When the attempts before attempt \<open>k\<close> fail retryably, each
  followed by a sleep that returns, and attempt \<open>k\<close> reads a dataset that fails
  validation, the load returns the failed triple with the message \<open>Validation failed\<close> at
  that attempt: \<open>k\<close> attempts are made, and nothing is attempted or slept after the
  validation failure. When the first attempt reaches the validator, exactly one attempt is
  made and nothing is slept.
\<close>

theorem validation_failure_not_retried:
  assumes "1 \<le> k" and "k \<le> max_retries self"
    and "\<forall>a\<in>{1..<k}. retryable self (env a) file_path table_name
           \<and> time_sleep (env a) (retry_delay self) = None"
    and "list_all truthy [db_host self, db_user self, db_password self, db_name self]"
    and "create_engine (env k) (db_string self) = None" and "engine_begin (env k) = None"
    and "read_csv (env k) file_path = Inr df" and "\<not> fst (validate_csv df file_path)"
  shows "fst (load_csv_to_postgres self env file_path table_name)
           = Inr (file_path, False, ''Validation failed'')
         \<and> attempts_made (snd (load_csv_to_postgres self env file_path table_name)) = nat k
         \<and> sleeps (snd (load_csv_to_postgres self env file_path table_name))
              = replicate (nat (k - 1)) (retry_delay self)"
proof -
  let ?m = "max_retries self"
  have body: "fst (attempt_body self (env k) file_path table_name)
                = Inr (file_path, False, ''Validation failed'')"
    using assms(4-8) by (simp add: attempt_body_def create_db_engine_def)
  have split: "[1..?m] = [1..k - 1] @ k # [k + 1..?m]"
    using assms(1,2) by (rule upto_split3)
  have pre: "\<forall>a\<in>set [1..k - 1]. retryable self (env a) file_path table_name \<and> a < ?m
      \<and> time_sleep (env a) (retry_delay self) = None"
    using assms(2,3) by auto
  from attempts_retry_prefix [OF pre, of "k # [k + 1..?m]" "[]"] obtain le' where
    le': "fst (attempts self env file_path table_name ([1..k - 1] @ k # [k + 1..?m]) [])
            = fst (attempts self env file_path table_name (k # [k + 1..?m]) le')"
      "attempts_made (snd (attempts self env file_path table_name ([1..k - 1] @ k # [k + 1..?m]) []))
            = length [1..k - 1] + attempts_made (snd (attempts self env file_path table_name (k # [k + 1..?m]) le'))"
      "sleeps (snd (attempts self env file_path table_name ([1..k - 1] @ k # [k + 1..?m]) []))
            = replicate (length [1..k - 1]) (retry_delay self)
                @ sleeps (snd (attempts self env file_path table_name (k # [k + 1..?m]) le'))"
    by blast
  have len: "length [1..k - 1] = nat (k - 1)" by simp
  have "nat (k - 1) + 1 = nat k" using assms(1) by simp
  then show ?thesis
    using le' attempts_returned [where env = env and a = k, OF body, of "[k + 1..?m]" le']
    unfolding load_csv_to_postgres_def split [symmetric] len
    by simp
qed

theorem validation_failure_not_retried_witness:
  "1 \<le> (1::int) \<and> 1 \<le> max_retries (sample_loader (Some ''db'') [''a.csv''])
   \<and> list_all truthy [db_host (sample_loader (Some ''db'') [''a.csv'']),
        db_user (sample_loader (Some ''db'') [''a.csv'']),
        db_password (sample_loader (Some ''db'') [''a.csv'']),
        db_name (sample_loader (Some ''db'') [''a.csv''])]
   \<and> create_engine (answering (Inr header_only)) (db_string (sample_loader (Some ''db'') [''a.csv''])) = None
   \<and> engine_begin (answering (Inr header_only)) = None
   \<and> read_csv (answering (Inr header_only)) ''data/data-1/a.csv'' = Inr header_only
   \<and> \<not> fst (validate_csv header_only ''data/data-1/a.csv'')
   \<and> fst (load_csv_to_postgres (sample_loader (Some ''db'') [''a.csv'']) (\<lambda>a. answering (Inr header_only))
        ''data/data-1/a.csv'' ''a'') = Inr (''data/data-1/a.csv'', False, ''Validation failed'')
   \<and> attempts_made (snd (load_csv_to_postgres (sample_loader (Some ''db'') [''a.csv''])
        (\<lambda>a. answering (Inr header_only)) ''data/data-1/a.csv'' ''a'')) = 1
   \<and> sleeps (snd (load_csv_to_postgres (sample_loader (Some ''db'') [''a.csv''])
        (\<lambda>a. answering (Inr header_only)) ''data/data-1/a.csv'' ''a'')) = []"
proof -
  let ?L = "sample_loader (Some ''db'') [''a.csv'']"
  let ?env = "\<lambda>a::int. answering (Inr header_only)"
  have k: "1 \<le> (1::int)" by simp
  have h1: "1 \<le> max_retries ?L"
    and h2: "list_all truthy [db_host ?L, db_user ?L, db_password ?L, db_name ?L]"
    by (simp_all add: sample_defs)
  have h0: "\<forall>a\<in>{1..<1::int}. retryable ?L (?env a) ''data/data-1/a.csv'' ''a''
              \<and> time_sleep (?env a) (retry_delay ?L) = None"
    by simp
  have h3: "create_engine (?env 1) (db_string ?L) = None"
    and h4: "engine_begin (?env 1) = None"
    and h5: "read_csv (?env 1) ''data/data-1/a.csv'' = Inr header_only"
    by (simp_all add: answering_def)
  have h6: "\<not> fst (validate_csv header_only ''data/data-1/a.csv'')"
    by (simp add: validate_csv_def df_empty_def header_only_def)
  have "fst (load_csv_to_postgres ?L ?env ''data/data-1/a.csv'' ''a'')
            = Inr (''data/data-1/a.csv'', False, ''Validation failed'')
          \<and> attempts_made (snd (load_csv_to_postgres ?L ?env ''data/data-1/a.csv'' ''a'')) = 1
          \<and> sleeps (snd (load_csv_to_postgres ?L ?env ''data/data-1/a.csv'' ''a'')) = []"
    using validation_failure_not_retried
      [where env = ?env and k = 1 and table_name = "''a''", OF k h1 h0 h2 h3 h4 h5 h6]
    by simp
  with k h1 h2 h3 [simplified] h4 [simplified] h5 [simplified] h6 show ?thesis by blast
qed

text \<open>
  The database refuses the first connection and the second attempt reads a file with a
  header and no rows: \<open>Validation failed\<close> comes after two attempts and one sleep. With
  no attempt configured the same file fails with an empty message.
\<close>

theorem validation_after_refused_connection:
  "fst (load_csv_to_postgres (sample_loader (Some ''db'') [''a.csv'']) (after_refusal (Inr header_only))
         ''data/data-1/a.csv'' ''a'') = Inr (''data/data-1/a.csv'', False, ''Validation failed'')
   \<and> attempts_made (snd (load_csv_to_postgres (sample_loader (Some ''db'') [''a.csv''])
         (after_refusal (Inr header_only)) ''data/data-1/a.csv'' ''a'')) = 2
   \<and> sleeps (snd (load_csv_to_postgres (sample_loader (Some ''db'') [''a.csv''])
         (after_refusal (Inr header_only)) ''data/data-1/a.csv'' ''a'')) = [Finite 2]
   \<and> fst (load_csv_to_postgres ((sample_loader (Some ''db'') [''a.csv''])\<lparr>max_retries := 0\<rparr>)
         (\<lambda>a. answering (Inr header_only)) ''data/data-1/a.csv'' ''a'')
       = Inr (''data/data-1/a.csv'', False, [])"
  by (simp add: load_csv_to_postgres_def attempt_body_def create_db_engine_def sample_defs
      validate_csv_def df_empty_def is_EmptyDataError_def dispose_def attempts_made_def sleeps_def
      upto_rec1)

text \<open>
  C5, as the code has it. With at least one attempt configured, when every attempt from 1 to
  \<open>max_retries\<close> fails retryably and every sleep between two attempts returns, the load
  makes exactly \<open>max_retries\<close> attempts, sleeps the configured delay \<open>max_retries - 1\<close>
  times, and returns the failed triple carrying the text of the exception of the last
  attempt.
\<close>

theorem exhausted_retries:
  assumes "1 \<le> max_retries self" and "sleeps_return self env"
    and "\<forall>a\<in>{1..max_retries self}. retryable self (env a) file_path table_name"
  shows "\<exists>ex. raised self (env (max_retries self)) file_path table_name = Some ex
           \<and> fst (load_csv_to_postgres self env file_path table_name) = Inr (file_path, False, str ex)
           \<and> attempts_made (snd (load_csv_to_postgres self env file_path table_name)) = nat (max_retries self)
           \<and> sleeps (snd (load_csv_to_postgres self env file_path table_name))
                = replicate (nat (max_retries self - 1)) (retry_delay self)"
  using assms by (rule attempts_exhausted)

theorem exhausted_retries_witness:
  "1 \<le> max_retries (sample_loader (Some ''db'') [''a.csv''])
   \<and> sleeps_return (sample_loader (Some ''db'') [''a.csv'']) (\<lambda>a. unreachable)
   \<and> retryable (sample_loader (Some ''db'') [''a.csv'']) unreachable ''data/data-1/a.csv'' ''a''
   \<and> fst (load_csv_to_postgres (sample_loader (Some ''db'') [''a.csv'']) (\<lambda>a. unreachable) ''data/data-1/a.csv'' ''a'')
        = Inr (''data/data-1/a.csv'', False, ''connection refused'')
   \<and> attempts_made (snd (load_csv_to_postgres (sample_loader (Some ''db'') [''a.csv'']) (\<lambda>a. unreachable)
        ''data/data-1/a.csv'' ''a'')) = 3
   \<and> sleeps (snd (load_csv_to_postgres (sample_loader (Some ''db'') [''a.csv'']) (\<lambda>a. unreachable)
        ''data/data-1/a.csv'' ''a'')) = [Finite 2, Finite 2]"
proof -
  let ?L = "sample_loader (Some ''db'') [''a.csv'']"
  have r: "raised ?L unreachable ''data/data-1/a.csv'' ''a'' = Some (Exn OtherException ''connection refused'')"
    by (simp add: raised_def attempt_body_def create_db_engine_def sample_defs)
  have h1: "1 \<le> max_retries ?L" and m: "max_retries ?L = 3"
    by (simp_all add: sample_defs)
  have h2: "sleeps_return ?L (\<lambda>a. unreachable)"
    by (rule sample_sleeps_return)
  have h3: "\<forall>a\<in>{1..max_retries ?L}. retryable ?L ((\<lambda>a. unreachable) a) ''data/data-1/a.csv'' ''a''"
    using r by (simp add: retryable_def is_EmptyDataError_def)
  have two: "replicate (nat (3 - 1)) (retry_delay ?L) = [Finite 2, Finite 2]"
    by (simp add: sample_defs numeral_2_eq_2)
  have h3': "retryable ?L unreachable ''data/data-1/a.csv'' ''a''"
    using r by (simp add: retryable_def is_EmptyDataError_def)
  have "fst (load_csv_to_postgres ?L (\<lambda>a. unreachable) ''data/data-1/a.csv'' ''a'')
          = Inr (''data/data-1/a.csv'', False, ''connection refused'')
        \<and> attempts_made (snd (load_csv_to_postgres ?L (\<lambda>a. unreachable) ''data/data-1/a.csv'' ''a'')) = 3
        \<and> sleeps (snd (load_csv_to_postgres ?L (\<lambda>a. unreachable) ''data/data-1/a.csv'' ''a''))
             = [Finite 2, Finite 2]"
    using exhausted_retries [OF h1 h2 h3] r two by (simp add: m)
  with h1 h2 h3' show ?thesis by blast
qed

text \<open>
  With a delay of \<open>-1\<close> and a database that refuses every connection, every attempt would
  fail retryably, but the sleep after the first raises \<open>ValueError\<close>: the load makes one
  attempt, sleeps nothing and returns no triple. With no attempt configured the load sleeps
  nothing and its message is empty: no error was observed.
\<close>

theorem retries_cut_short:
  "retryable ((sample_loader (Some ''db'') [''a.csv''])\<lparr>retry_delay := Finite (- 1)\<rparr>) unreachable
     ''data/data-1/a.csv'' ''a''
   \<and> fst (load_csv_to_postgres ((sample_loader (Some ''db'') [''a.csv''])\<lparr>retry_delay := Finite (- 1)\<rparr>)
         (\<lambda>a. unreachable) ''data/data-1/a.csv'' ''a'')
       = Inl (Exn ValueError ''sleep length must be non-negative'')
   \<and> attempts_made (snd (load_csv_to_postgres
         ((sample_loader (Some ''db'') [''a.csv''])\<lparr>retry_delay := Finite (- 1)\<rparr>)
         (\<lambda>a. unreachable) ''data/data-1/a.csv'' ''a'')) = 1
   \<and> sleeps (snd (load_csv_to_postgres
         ((sample_loader (Some ''db'') [''a.csv''])\<lparr>retry_delay := Finite (- 1)\<rparr>)
         (\<lambda>a. unreachable) ''data/data-1/a.csv'' ''a'')) = []
   \<and> load_csv_to_postgres ((sample_loader (Some ''db'') [''a.csv''])\<lparr>max_retries := 0\<rparr>)
         (\<lambda>a. unreachable) ''data/data-1/a.csv'' ''a''
       = (Inr (''data/data-1/a.csv'', False, []), [])"
  by (simp add: retryable_def raised_def load_csv_to_postgres_def attempt_body_def create_db_engine_def
      sample_defs is_EmptyDataError_def dispose_def attempts_made_def sleeps_def upto_rec1)

text \<open>
  C6, as the code has it. Every triple a load returns carries the path it was given and an
  empty message when it succeeded. When at least one attempt is configured and every
  exception raised has a non-empty text, the message is empty exactly when the load
  succeeded.
\<close>

theorem outcome_message:
  assumes "fst (load_csv_to_postgres self env file_path table_name) = Inr (p, ok, msg)"
  shows "p = file_path \<and> (ok \<longrightarrow> msg = [])
       \<and> (1 \<le> max_retries self
            \<and> (\<forall>a\<in>{1..max_retries self}. \<forall>ex.
                  raised self (env a) file_path table_name = Some ex \<longrightarrow> str ex \<noteq> [])
           \<longrightarrow> (msg = [] \<longleftrightarrow> ok))"
  using attempts_message [of self env file_path table_name "[1..max_retries self]" "[]" p ok msg] assms
  by (auto simp: load_csv_to_postgres_def)

theorem outcome_message_witness:
  "fst (load_csv_to_postgres (sample_loader (Some ''db'') [''a.csv'']) (\<lambda>a. unreachable)
         ''data/data-1/a.csv'' ''a'') = Inr (''data/data-1/a.csv'', False, ''connection refused'')
   \<and> 1 \<le> max_retries (sample_loader (Some ''db'') [''a.csv''])
   \<and> raised (sample_loader (Some ''db'') [''a.csv'']) unreachable ''data/data-1/a.csv'' ''a''
        = Some (Exn OtherException ''connection refused'')
   \<and> str (Exn OtherException ''connection refused'') \<noteq> []
   \<and> ((''connection refused'' = []) \<longleftrightarrow> False)"
proof -
  let ?L = "sample_loader (Some ''db'') [''a.csv'']"
  have l: "fst (load_csv_to_postgres ?L (\<lambda>a. unreachable) ''data/data-1/a.csv'' ''a'')
             = Inr (''data/data-1/a.csv'', False, ''connection refused'')"
    by (simp add: load_csv_to_postgres_def attempt_body_def create_db_engine_def sample_defs
        is_EmptyDataError_def upto_rec1)
  have r: "raised ?L unreachable ''data/data-1/a.csv'' ''a'' = Some (Exn OtherException ''connection refused'')"
    by (simp add: raised_def attempt_body_def create_db_engine_def sample_defs)
  have m: "1 \<le> max_retries ?L" by (simp add: sample_defs)
  have t: "\<forall>a\<in>{1..max_retries ?L}. \<forall>ex.
          raised ?L unreachable ''data/data-1/a.csv'' ''a'' = Some ex \<longrightarrow> str ex \<noteq> []"
    using r by simp
  from outcome_message [OF l] m t have "(''connection refused'' = []) \<longleftrightarrow> False"
    by blast
  with l m r show ?thesis by simp
qed

text \<open>
  With no attempt configured, or with an exception whose text is empty, the load fails with
  an empty message.
\<close>

theorem empty_message_on_failure:
  "fst (load_csv_to_postgres ((sample_loader (Some ''db'') [''a.csv''])\<lparr>max_retries := 0\<rparr>)
         (\<lambda>a. answering (Inr sample_frame)) ''data/data-1/a.csv'' ''a'')
     = Inr (''data/data-1/a.csv'', False, [])
   \<and> fst (load_csv_to_postgres (sample_loader (Some ''db'') [''a.csv''])
         (\<lambda>a. answering (Inl (Exn OtherException []))) ''data/data-1/a.csv'' ''a'')
     = Inr (''data/data-1/a.csv'', False, [])"
  by (simp add: load_csv_to_postgres_def attempt_body_def create_db_engine_def sample_defs
      is_EmptyDataError_def upto_rec1)

text \<open>Every position is in the completion order, and every outcome is in the report.\<close>

lemma completion_order_mem:
  assumes "completion_order self order" "i < length (files_to_load self)"
  shows "i \<in> set order"
proof -
  have "set order = set [0..<length (files_to_load self)]"
    using assms(1) unfolding completion_order_def by (rule mset_eq_setD)
  with assms(2) show ?thesis by simp
qed

lemma report_members:
  assumes "(p, ok, msg) \<in> set outs"
  shows "if ok then p \<in> set (succeeded_paths outs) else (p, msg) \<in> set (failed_pairs outs)"
  using assms by (force simp: succeeded_paths_def failed_pairs_def)

text \<open>
  C7, as the code has it. When the sleeps of a load return, whatever is raised during its
  attempts is recovered into the triple it returns: the load returns a triple for its path
  and raises nothing. When the pool can be built and the sleeps of every load return, the
  run returns, and every submitted file is in the report with the outcome of its own load,
  among the successful files or among the failed ones with its message, whatever happened to
  the other files.
\<close>

theorem failures_recovered_locally:
  "(sleeps_return self env \<longrightarrow>
      (\<exists>ok msg. fst (load_csv_to_postgres self env file_path table_name) = Inr (file_path, ok, msg)))
   \<and> (0 < max_workers self \<and> completion_order self order
        \<and> (\<forall>i<length (files_to_load self). sleeps_return self (envs i)) \<longrightarrow>
        (\<exists>self'. run self envs order = Inr self'
           \<and> length (successful_files self') + length (failed_files self')
               = length (successful_files self) + length (failed_files self) + length (files_to_load self)
           \<and> (\<forall>i<length (files_to_load self). \<exists>ok msg.
                 fst (load_csv_to_postgres self (envs i) (fst (tasks self ! i)) (snd (tasks self ! i)))
                   = Inr (fst (tasks self ! i), ok, msg)
                 \<and> (if ok then fst (tasks self ! i) \<in> set (successful_files self')
                     else (fst (tasks self ! i), msg) \<in> set (failed_files self')))))"
proof (intro conjI impI)
  assume "sleeps_return self env"
  then show "\<exists>ok msg. fst (load_csv_to_postgres self env file_path table_name) = Inr (file_path, ok, msg)"
    by (rule load_returns)
next
  assume h: "0 < max_workers self \<and> completion_order self order
        \<and> (\<forall>i<length (files_to_load self). sleeps_return self (envs i))"
  let ?outs = "outcomes self envs order"
  let ?self' = "self\<lparr>successful_files := successful_files self @ succeeded_paths ?outs,
                      failed_files := failed_files self @ failed_pairs ?outs\<rparr>"
  have r: "run self envs order = Inr ?self'"
    using run_returns [of self envs order] h by blast
  have "length order = length (files_to_load self)"
    using h by (metis completion_order_def length_upt minus_nat.diff_0 size_mset)
  then have len: "length (successful_files ?self') + length (failed_files ?self')
               = length (successful_files self) + length (failed_files self) + length (files_to_load self)"
    using report_length [of ?outs] by (simp add: outcomes_def)
  have each: "\<exists>ok msg.
         fst (load_csv_to_postgres self (envs i) (fst (tasks self ! i)) (snd (tasks self ! i)))
           = Inr (fst (tasks self ! i), ok, msg)
         \<and> (if ok then fst (tasks self ! i) \<in> set (successful_files ?self')
             else (fst (tasks self ! i), msg) \<in> set (failed_files ?self'))"
    if i: "i < length (files_to_load self)" for i
  proof -
    from h i have "sleeps_return self (envs i)" by blast
    from futures_return [where env = envs and i = i, OF this i] obtain ok msg where
      f: "futures self envs ! i = Inr (fst (tasks self ! i), ok, msg)"
      by blast
    have "i \<in> set order"
      using h i completion_order_mem by blast
    then have "projr (futures self envs ! i) \<in> set ?outs"
      by (simp add: outcomes_def)
    then have "(fst (tasks self ! i), ok, msg) \<in> set ?outs"
      by (simp add: f)
    from report_members [OF this]
    have "if ok then fst (tasks self ! i) \<in> set (successful_files ?self')
          else (fst (tasks self ! i), msg) \<in> set (failed_files ?self')"
      by (simp split: if_splits)
    moreover have "fst (load_csv_to_postgres self (envs i) (fst (tasks self ! i)) (snd (tasks self ! i)))
           = Inr (fst (tasks self ! i), ok, msg)"
      using f futures_nth [OF i, of envs] by simp
    ultimately show ?thesis by blast
  qed
  show "\<exists>self'. run self envs order = Inr self'
           \<and> length (successful_files self') + length (failed_files self')
               = length (successful_files self) + length (failed_files self) + length (files_to_load self)
           \<and> (\<forall>i<length (files_to_load self). \<exists>ok msg.
                 fst (load_csv_to_postgres self (envs i) (fst (tasks self ! i)) (snd (tasks self ! i)))
                   = Inr (fst (tasks self ! i), ok, msg)
                 \<and> (if ok then fst (tasks self ! i) \<in> set (successful_files self')
                     else (fst (tasks self ! i), msg) \<in> set (failed_files self')))"
    using r len each by (intro exI [of _ ?self']) blast
qed

theorem failures_recovered_locally_witness:
  "sleeps_return (sample_loader (Some ''db'') [''a.csv'', ''b.csv'', ''c.csv'']) (all_failing_env 0)
   \<and> sleeps_return (sample_loader (Some ''db'') [''a.csv'', ''b.csv'', ''c.csv'']) (all_failing_env 1)
   \<and> sleeps_return (sample_loader (Some ''db'') [''a.csv'', ''b.csv'', ''c.csv'']) (all_failing_env 2)
   \<and> 0 < max_workers (sample_loader (Some ''db'') [''a.csv'', ''b.csv'', ''c.csv''])
   \<and> completion_order (sample_loader (Some ''db'') [''a.csv'', ''b.csv'', ''c.csv'']) [1, 2, 0]
   \<and> (\<exists>ok msg. fst (load_csv_to_postgres (sample_loader (Some ''db'') [''a.csv'', ''b.csv'', ''c.csv''])
          (all_failing_env 0) ''data/data-1/a.csv'' ''a'') = Inr (''data/data-1/a.csv'', ok, msg))
   \<and> futures (sample_loader (Some ''db'') [''a.csv'', ''b.csv'', ''c.csv'']) all_failing_env
        = [Inr (''data/data-1/a.csv'', False, ''connection refused''),
           Inr (''data/data-1/b.csv'', False, ''Empty or malformed CSV''),
           Inr (''data/data-1/c.csv'', False, ''Validation failed'')]
   \<and> (\<exists>self'. run (sample_loader (Some ''db'') [''a.csv'', ''b.csv'', ''c.csv'']) all_failing_env [1, 2, 0]
          = Inr self'
        \<and> successful_files self' = []
        \<and> failed_files self' = [(''data/data-1/b.csv'', ''Empty or malformed CSV''),
                                 (''data/data-1/c.csv'', ''Validation failed''),
                                 (''data/data-1/a.csv'', ''connection refused'')]
        \<and> length (successful_files self') + length (failed_files self') = 3)"
proof -
  let ?L = "sample_loader (Some ''db'') [''a.csv'', ''b.csv'', ''c.csv'']"
  have sl: "sleeps_return ?L (all_failing_env i)" for i
    by (rule sample_sleeps_return)
  have w: "0 < max_workers ?L"
    by (simp add: sample_defs)
  have o: "completion_order ?L [1, 2, 0]"
    by (simp add: completion_order_def sample_defs upt_rec)
  have t: "tasks ?L = [(''data/data-1/a.csv'', ''a''), (''data/data-1/b.csv'', ''b''), (''data/data-1/c.csv'', ''c'')]"
    by (simp add: tasks_def task_of_def join_def splitext_def rfind_def not_all_dots_def sample_defs)
  have a: "fst (load_csv_to_postgres ?L (all_failing_env 0) p tn) = Inr (p, False, ''connection refused'')"
    for p tn
    by (simp add: all_failing_env_def load_csv_to_postgres_def attempt_body_def create_db_engine_def
        sample_defs is_EmptyDataError_def upto_rec1)
  have b: "fst (load_csv_to_postgres ?L (all_failing_env 1) p tn) = Inr (p, False, ''Empty or malformed CSV'')"
    for p tn
    by (simp add: all_failing_env_def load_csv_to_postgres_def attempt_body_def create_db_engine_def
        sample_defs is_EmptyDataError_def upto_rec1)
  have c: "fst (load_csv_to_postgres ?L (all_failing_env 2) p tn) = Inr (p, False, ''Validation failed'')"
    for p tn
    by (simp add: all_failing_env_def load_csv_to_postgres_def attempt_body_def create_db_engine_def
        sample_defs validate_csv_def df_empty_def upto_rec1)
  have f: "futures ?L all_failing_env
             = [Inr (''data/data-1/a.csv'', False, ''connection refused''),
                Inr (''data/data-1/b.csv'', False, ''Empty or malformed CSV''),
                Inr (''data/data-1/c.csv'', False, ''Validation failed'')]"
    using a b c by (simp add: futures_def t numeral_2_eq_2)
  have s: "successful_files ?L = []" "failed_files ?L = []" "length (files_to_load ?L) = 3"
    by (simp_all add: sample_defs)
  have r: "run ?L all_failing_env [1, 2, 0]
        = Inr (?L\<lparr>failed_files := [(''data/data-1/b.csv'', ''Empty or malformed CSV''),
                                   (''data/data-1/c.csv'', ''Validation failed''),
                                   (''data/data-1/a.csv'', ''connection refused'')]\<rparr>)"
    using w s by (simp add: run_def f)
  note inst = failures_recovered_locally
    [where self = ?L and env = "all_failing_env 0" and file_path = "''data/data-1/a.csv''"
       and table_name = "''a''" and envs = all_failing_env and order = "[1, 2, 0]"]
  have one: "\<exists>ok msg. fst (load_csv_to_postgres ?L (all_failing_env 0) ''data/data-1/a.csv'' ''a'')
               = Inr (''data/data-1/a.csv'', ok, msg)"
    using inst sl by blast
  from inst w o sl obtain self' where
    s': "run ?L all_failing_env [1, 2, 0] = Inr self'"
      "length (successful_files self') + length (failed_files self')
         = length (successful_files ?L) + length (failed_files ?L) + length (files_to_load ?L)"
    by blast
  from s'(1) r have "successful_files self' = []"
    and "failed_files self' = [(''data/data-1/b.csv'', ''Empty or malformed CSV''),
                                 (''data/data-1/c.csv'', ''Validation failed''),
                                 (''data/data-1/a.csv'', ''connection refused'')]"
    by (simp_all add: s)
  moreover have "length (successful_files self') + length (failed_files self') = 3"
    using s'(2) s by simp
  ultimately show ?thesis
    using sl w o one f s'(1) by blast
qed

text \<open>
  With a delay of \<open>-1\<close> the sleep before the first retry raises \<open>ValueError\<close> inside
  the handler: the exception leaves the load, and the run that asks for its result. A delay
  too large for the timestamp does the same with \<open>OverflowError\<close>.
\<close>

theorem unsleepable_delay_raises:
  "fst (load_csv_to_postgres ((sample_loader (Some ''db'') [''a.csv''])\<lparr>retry_delay := Finite (- 1)\<rparr>)
         (\<lambda>a. unreachable) ''data/data-1/a.csv'' ''a'')
     = Inl (Exn ValueError ''sleep length must be non-negative'')
   \<and> run ((sample_loader (Some ''db'') [''a.csv''])\<lparr>retry_delay := Finite (- 1)\<rparr>) (\<lambda>i a. unreachable) [0]
     = Inl (Exn ValueError ''sleep length must be non-negative'')
   \<and> fst (load_csv_to_postgres
         ((sample_loader (Some ''db'') [''a.csv''])\<lparr>retry_delay := Finite 100000000000000000000\<rparr>)
         (\<lambda>a. unreachable) ''data/data-1/a.csv'' ''a'')
     = Inl (Exn OverflowError ''timestamp too large to convert to C _PyTime_t'')
   \<and> run ((sample_loader (Some ''db'') [''a.csv''])\<lparr>retry_delay := Finite 100000000000000000000\<rparr>)
         (\<lambda>i a. unreachable) [0]
     = Inl (Exn OverflowError ''timestamp too large to convert to C _PyTime_t'')"
  by (simp add: run_def futures_def tasks_def task_of_def join_def splitext_def rfind_def not_all_dots_def
      load_csv_to_postgres_def attempt_body_def create_db_engine_def sample_defs
      is_EmptyDataError_def upto_rec1)

section \<open>Source path and table name\<close>

text \<open>
  C10, as the code has it. The load of every configured file name is submitted with the path
  \<open>os.path.join\<close> makes of the directory and the name (the directory, a slash and the
  name, when the directory is not empty and does not end in a slash and the name does not
  begin with one) and with the root \<open>os.path.splitext\<close> leaves of the name as table. For a
  name \<open>s.e\<close> whose extension \<open>e\<close> has no dot and no slash, the root is \<open>s\<close>, the name
  up to its last dot, when the last path component of \<open>s\<close> has a character other than a
  dot; two such names with the same \<open>s\<close> then get the same table. Otherwise, when the last
  component of the name begins with its last dot or has no dot, the table is the whole
  name.
\<close>

theorem table_name_strips_extension:
  "(\<forall>i<length (files_to_load self).
       futures self envs ! i
         = fst (load_csv_to_postgres self (envs i)
                  (join (csv_directory self) (files_to_load self ! i))
                  (fst (splitext (files_to_load self ! i)))))
   \<and> (csv_directory self \<noteq> [] \<and> last (csv_directory self) \<noteq> CHR ''/'' \<and> take 1 f \<noteq> ''/''
        \<longrightarrow> join (csv_directory self) f = csv_directory self @ ''/'' @ f)
   \<and> (CHR ''.'' \<notin> set e \<and> CHR ''/'' \<notin> set e \<and> (\<exists>c\<in>set (basename s). c \<noteq> CHR ''.'')
        \<longrightarrow> fst (splitext (s @ ''.'' @ e)) = s
          \<and> fst (splitext (s @ ''.'' @ e)) = up_to_last_dot (s @ ''.'' @ e)
          \<and> (CHR ''.'' \<notin> set e' \<and> CHR ''/'' \<notin> set e'
                \<longrightarrow> fst (splitext (s @ ''.'' @ e')) = fst (splitext (s @ ''.'' @ e))))
   \<and> (CHR ''.'' \<notin> set e \<and> CHR ''/'' \<notin> set e \<and> \<not> (\<exists>c\<in>set (basename s). c \<noteq> CHR ''.'')
        \<longrightarrow> fst (splitext (s @ ''.'' @ e)) = s @ ''.'' @ e)
   \<and> (CHR ''.'' \<notin> set (basename f) \<longrightarrow> fst (splitext f) = f)"
proof (intro conjI allI impI)
  fix i assume "i < length (files_to_load self)"
  then show "futures self envs ! i
         = fst (load_csv_to_postgres self (envs i)
                  (join (csv_directory self) (files_to_load self ! i))
                  (fst (splitext (files_to_load self ! i))))"
    by (simp add: futures_nth tasks_def task_of_def)
next
  assume "csv_directory self \<noteq> [] \<and> last (csv_directory self) \<noteq> CHR ''/'' \<and> take 1 f \<noteq> ''/''"
  then show "join (csv_directory self) f = csv_directory self @ ''/'' @ f"
    by (simp add: join_def)
next
  assume h: "CHR ''.'' \<notin> set e \<and> CHR ''/'' \<notin> set e \<and> (\<exists>c\<in>set (basename s). c \<noteq> CHR ''.'')"
  then show r: "fst (splitext (s @ ''.'' @ e)) = s"
    using splitext_extension [of e s] by simp
  show "fst (splitext (s @ ''.'' @ e)) = up_to_last_dot (s @ ''.'' @ e)"
    using h r up_to_last_dot_extension [of e s] by simp
  assume "CHR ''.'' \<notin> set e' \<and> CHR ''/'' \<notin> set e'"
  then show "fst (splitext (s @ ''.'' @ e')) = fst (splitext (s @ ''.'' @ e))"
    using h r splitext_extension [of e' s] by simp
next
  assume "CHR ''.'' \<notin> set e \<and> CHR ''/'' \<notin> set e \<and> \<not> (\<exists>c\<in>set (basename s). c \<noteq> CHR ''.'')"
  then show "fst (splitext (s @ ''.'' @ e)) = s @ ''.'' @ e"
    using splitext_extension [of e s] by simp
next
  assume "CHR ''.'' \<notin> set (basename f)"
  then show "fst (splitext f) = f"
    by (simp add: splitext_no_dot)
qed

theorem table_name_strips_extension_witness:
  "CHR ''.'' \<notin> set ''csv'' \<and> CHR ''/'' \<notin> set ''csv''
   \<and> CHR ''.'' \<notin> set ''txt'' \<and> CHR ''/'' \<notin> set ''txt''
   \<and> (\<exists>c\<in>set (basename ''olist_orders_dataset''). c \<noteq> CHR ''.'')
   \<and> \<not> (\<exists>c\<in>set (basename []). c \<noteq> CHR ''.'')
   \<and> CHR ''.'' \<notin> set (basename ''README'')
   \<and> futures (sample_loader (Some ''db'') [''olist_orders_dataset.csv'']) three_files_env ! 0
        = fst (load_csv_to_postgres (sample_loader (Some ''db'') [''olist_orders_dataset.csv''])
                 (three_files_env 0) ''data/data-1/olist_orders_dataset.csv'' ''olist_orders_dataset'')
   \<and> join ''data/data-1'' ''README'' = ''data/data-1/README''
   \<and> fst (splitext ''olist_orders_dataset.csv'') = ''olist_orders_dataset''
   \<and> fst (splitext ''olist_orders_dataset.csv'') = up_to_last_dot ''olist_orders_dataset.csv''
   \<and> fst (splitext ''olist_orders_dataset.txt'') = fst (splitext ''olist_orders_dataset.csv'')
   \<and> fst (splitext ''.csv'') = ''.csv''
   \<and> fst (splitext ''README'') = ''README''"
proof -
  let ?L = "sample_loader (Some ''db'') [''olist_orders_dataset.csv'']"
  have e: "CHR ''.'' \<notin> set ''csv'' \<and> CHR ''/'' \<notin> set ''csv''"
    and e': "CHR ''.'' \<notin> set ''txt'' \<and> CHR ''/'' \<notin> set ''txt''"
    by simp_all
  have s: "\<exists>c\<in>set (basename ''olist_orders_dataset''). c \<noteq> CHR ''.''"
    and n: "\<not> (\<exists>c\<in>set (basename []). c \<noteq> CHR ''.'')"
    and f: "CHR ''.'' \<notin> set (basename ''README'')"
    by (simp_all add: basename_def rfind_def)
  have d: "csv_directory ?L = ''data/data-1''" and l: "files_to_load ?L = [''olist_orders_dataset.csv'']"
    by (simp_all add: sample_defs)
  note t1 = table_name_strips_extension
    [where self = ?L and envs = three_files_env and f = "''README''" and e = "''csv''"
       and s = "''olist_orders_dataset''" and e' = "''txt''"]
  note t2 = table_name_strips_extension
    [where self = ?L and envs = three_files_env and f = "''README''" and e = "''csv''"
       and s = "[]" and e' = "''txt''"]
  have "futures ?L three_files_env ! 0
        = fst (load_csv_to_postgres ?L (three_files_env 0) ''data/data-1/olist_orders_dataset.csv''
                 ''olist_orders_dataset'')"
    using t1 e s by (simp add: d l join_def)
  moreover have "join ''data/data-1'' ''README'' = ''data/data-1/README''"
    using t1 by (simp add: d)
  moreover have "fst (splitext ''olist_orders_dataset.csv'') = ''olist_orders_dataset''"
    and "fst (splitext ''olist_orders_dataset.csv'') = up_to_last_dot ''olist_orders_dataset.csv''"
    and "fst (splitext ''olist_orders_dataset.txt'') = fst (splitext ''olist_orders_dataset.csv'')"
    using t1 e e' s by auto
  moreover have "fst (splitext ''.csv'') = ''.csv''"
    using t2 e n by simp
  moreover have "fst (splitext ''README'') = ''README''"
    using t1 f by simp
  ultimately show ?thesis
    using e e' s n f by blast
qed

text \<open>
  The names \<open>.csv\<close> and \<open>.txt\<close> have no extension: each is its own table, while
  nothing comes before their last dot. In \<open>v1.0/data\<close> the last dot belongs to the
  directory.
\<close>

theorem leading_dot_is_no_extension:
  "task_of (sample_loader (Some ''db'') [''.csv'', ''.txt'']) ''.csv'' = (''data/data-1/.csv'', ''.csv'')
   \<and> task_of (sample_loader (Some ''db'') [''.csv'', ''.txt'']) ''.txt'' = (''data/data-1/.txt'', ''.txt'')
   \<and> up_to_last_dot ''.csv'' = []
   \<and> up_to_last_dot ''.txt'' = []
   \<and> snd (task_of (sample_loader (Some ''db'') [''v1.0/data'']) ''v1.0/data'') = ''v1.0/data''
   \<and> up_to_last_dot ''v1.0/data'' = ''v1''"
  by (simp add: task_of_def join_def splitext_def rfind_def not_all_dots_def up_to_last_dot_def sample_defs)

end
